theory Spec2Isabelle
  imports Complex_Main
begin

section \<open>KPI manager: a shallow embedding of \<^verbatim>\<open>app.py\<close>\<close>

text \<open>
  The application keeps its data in a relational store and reaches it through
  single SQL statements. Tables are lists of rows (records), nullable columns are
  options, integer columns are \<^typ>\<open>int\<close>, numeric columns are \<^typ>\<open>rat\<close>.
  Python's truth test on a nullable integer (\<^verbatim>\<open>if x:\<close>) is written out:
  \<^verbatim>\<open>None\<close> and \<^verbatim>\<open>0\<close> are false.
\<close>

subsection \<open>Python truthiness\<close>

definition truthy :: "int option \<Rightarrow> bool" where
  "truthy v = (case v of None \<Rightarrow> False | Some n \<Rightarrow> n \<noteq> 0)"

subsection \<open>Colouring a KPI row (\<^verbatim>\<open>mis_kpis\<close>, GET branch)\<close>

text \<open>
  A row of the catalogue \<^verbatim>\<open>kpis\<close>, and a row of the KPI query: the
  columns of the catalogue joined with the employee's result of the period,
  \<^verbatim>\<open>valor\<close> and \<^verbatim>\<open>texto_resultado\<close> being null when no result exists.
\<close>

record kpi =
  k_id :: int
  descripcion :: string
  unidad_medida :: "string option"
  valor_objetivo :: "rat option"
  rango_rojo_min :: "rat option"
  rango_rojo_max :: "rat option"
  rango_amarillo_min :: "rat option"
  rango_amarillo_max :: "rat option"
  rango_verde_min :: "rat option"
  rango_verde_max :: "rat option"
  es_criterio :: "int option"

record kpi_row = kpi +
  valor :: "rat option"
  texto_resultado :: "string option"

text \<open>
  The body of the loop over the fetched rows: \<^verbatim>\<open>color\<close> starts as
  \<^verbatim>\<open>None\<close>; for a metric KPI with a value the three ranges are tried by an
  \<^verbatim>\<open>if/elif/elif\<close> chain, green first. The same code is repeated for the
  rows of every subordinate.
\<close>

definition compute_color :: "kpi_row \<Rightarrow> string option" where
  "compute_color row =
     (if \<not> truthy (es_criterio row) \<and> valor row \<noteq> None then
        (let val = the (valor row) in
         if rango_verde_min row \<noteq> None \<and> rango_verde_max row \<noteq> None
            \<and> the (rango_verde_min row) \<le> val \<and> val \<le> the (rango_verde_max row)
         then Some ''success''
         else if rango_amarillo_min row \<noteq> None \<and> rango_amarillo_max row \<noteq> None
            \<and> the (rango_amarillo_min row) \<le> val \<and> val \<le> the (rango_amarillo_max row)
         then Some ''warning''
         else if rango_rojo_min row \<noteq> None \<and> rango_rojo_max row \<noteq> None
            \<and> the (rango_rojo_min row) \<le> val \<and> val \<le> the (rango_rojo_max row)
         then Some ''danger''
         else None)
      else None)"

text \<open>
  The classifier as the specification words it: a status among green, yellow, red
  and none; a range is a pair of optional bounds and matches a value when both are
  present and enclose it; the status is that of the first matching range in the
  order green, yellow, red.
\<close>

datatype status = Green | Yellow | Red | No_status

type_synonym range = "rat option \<times> rat option"

fun range_matches :: "range \<Rightarrow> rat \<Rightarrow> bool" where
  "range_matches (Some lo, Some hi) v = (lo \<le> v \<and> v \<le> hi)"
| "range_matches _ v = False"

fun first_match :: "(status \<times> range) list \<Rightarrow> rat \<Rightarrow> status" where
  "first_match [] v = No_status"
| "first_match ((s, r) # rest) v = (if range_matches r v then s else first_match rest v)"

definition classify_spec :: "rat \<Rightarrow> range \<Rightarrow> range \<Rightarrow> range \<Rightarrow> status" where
  "classify_spec v red yellow green = first_match [(Green, green), (Yellow, yellow), (Red, red)] v"

text \<open>The display classes the templates receive, read as statuses.\<close>

definition status_of_color :: "string option \<Rightarrow> status" where
  "status_of_color c =
     (if c = Some ''success'' then Green
      else if c = Some ''warning'' then Yellow
      else if c = Some ''danger'' then Red
      else No_status)"

definition rojo :: "kpi_row \<Rightarrow> range" where
  "rojo row = (rango_rojo_min row, rango_rojo_max row)"

definition amarillo :: "kpi_row \<Rightarrow> range" where
  "amarillo row = (rango_amarillo_min row, rango_amarillo_max row)"

definition verde :: "kpi_row \<Rightarrow> range" where
  "verde row = (rango_verde_min row, rango_verde_max row)"

definition example_row :: kpi_row where
  "example_row =
     \<lparr> k_id = 1, descripcion = ''Ventas'', unidad_medida = Some ''%'', valor_objetivo = Some 90,
       rango_rojo_min = Some 0, rango_rojo_max = Some 49,
       rango_amarillo_min = Some 50, rango_amarillo_max = Some 85,
       rango_verde_min = Some 80, rango_verde_max = Some 100,
       es_criterio = Some 0, valor = Some 85, texto_resultado = None \<rparr>"

subsection \<open>Tables\<close>

text \<open>
  The rows of \<^verbatim>\<open>puestos\<close> and \<^verbatim>\<open>empleados\<close> with the columns the
  application reads and writes. \<^verbatim>\<open>id\<close> is the integer key the store assigns.
\<close>

record puesto =
  p_id :: int
  p_nombre :: string
  departamento_id :: "int option"
  jefe_puesto_id :: "int option"

record empleado =
  e_id :: int
  id_empleado :: "string option"
  e_nombre :: string
  e_puesto_id :: "int option"
  jefe_directo_id :: "int option"
  email :: "string option"

record departamento =
  d_id :: int
  d_nombre :: string

text \<open>A period is a date; \<^verbatim>\<open>current_period\<close> is the first day of today's month.\<close>

record date =
  year :: int
  month :: int
  day :: int

definition current_period :: "date \<Rightarrow> date" where
  "current_period today = today\<lparr>day := 1\<rparr>"

record kpi_resultado =
  r_id :: int
  r_empleado_id :: int
  r_kpi_id :: int
  periodo :: date
  r_valor :: "rat option"
  r_texto_resultado :: "string option"
  cerrado :: int
  cerrado_por :: "int option"

record db =
  db_kpis :: "kpi list"
  db_puestos :: "puesto list"
  db_empleados :: "empleado list"
  db_departamentos :: "departamento list"
  db_puesto_kpis :: "(int \<times> int) list"
  db_kpi_resultados :: "kpi_resultado list"

text \<open>
  The key the store assigns to an inserted row (\<^verbatim>\<open>AUTO_INCREMENT\<close>,
  read back by \<^verbatim>\<open>cur.lastrowid\<close>): greater than every key of the table.
\<close>

definition next_id :: "int list \<Rightarrow> int" where
  "next_id ids = foldr max ids 0 + 1"

text \<open>
  The connection is opened with \<^verbatim>\<open>DB_CONFIG\<close>, whose
  \<^verbatim>\<open>"autocommit"\<close> entry is \<^verbatim>\<open>True\<close>: every statement is committed
  as soon as it completes. No function calls \<^verbatim>\<open>commit\<close> or
  \<^verbatim>\<open>rollback\<close>; with the entry false, closing the connection would discard
  what the request wrote.
\<close>

definition DB_CONFIG_autocommit :: bool where
  "DB_CONFIG_autocommit = True"

text \<open>
  A statement fails when the store does (a lost connection): \<^verbatim>\<open>cur.execute\<close>
  raises \<^verbatim>\<open>OperationalError\<close>, and the exception leaves the request through
  \<^verbatim>\<open>finally: conn.close()\<close>. The store's behaviour is an input: the number of
  statements it still executes. \<^verbatim>\<open>cur.execute\<close> raises
  \<^verbatim>\<open>ProgrammingError\<close> when a parameter cannot be written into the statement.
\<close>

datatype store_error = OperationalError | ProgrammingError

definition durable :: "db \<Rightarrow> db \<Rightarrow> db" where
  "durable d0 d1 = (if DB_CONFIG_autocommit then d1 else d0)"

subsection \<open>Printing integers (\<^verbatim>\<open>str\<close>, f-strings)\<close>

definition digit_char :: "nat \<Rightarrow> char" where
  "digit_char n = ''0123456789'' ! n"

fun str_nat :: "nat \<Rightarrow> string" where
  "str_nat n = (if n < 10 then [digit_char n] else str_nat (n div 10) @ [digit_char (n mod 10)])"

declare str_nat.simps [simp del]

definition str_int :: "int \<Rightarrow> string" where
  "str_int i = (if i < 0 then CHR ''-'' # str_nat (nat (- i)) else str_nat (nat i))"

subsection \<open>The organisation chart (\<^verbatim>\<open>organigrama_data\<close>)\<close>

text \<open>
  The function builds one dictionary per position, keeps them in the dictionary
  \<^verbatim>\<open>nodes\<close> keyed by position id, and appends to their \<^verbatim>\<open>children\<close>
  lists in place. A position's dictionary is shared between \<^verbatim>\<open>nodes\<close>, its
  boss's \<^verbatim>\<open>children\<close> and \<^verbatim>\<open>forest\<close>, so the model keeps the
  dictionaries in a store keyed by position id and writes a reference to one as
  \<open>Node_ref\<close>. Every position dictionary the function touches is read from
  \<^verbatim>\<open>nodes\<close>, so the key identifies it.
\<close>

record leaf =
  leaf_id :: string
  leaf_text :: string
  icon :: string
  data_employee_id :: int

datatype child = Leaf leaf | Node_ref int

record node =
  node_id :: string
  node_text :: string
  children :: "child list"

type_synonym nodes = "int \<rightharpoonup> node"

datatype py_error = KeyError

definition puesto_node :: "puesto \<Rightarrow> node" where
  "puesto_node p =
     \<lparr> node_id = ''puesto_'' @ str_int (p_id p), node_text = p_nombre p, children = [] \<rparr>"

text \<open>The dictionary comprehension: a later row with the same id replaces the earlier one.\<close>

fun build_nodes :: "puesto list \<Rightarrow> nodes \<Rightarrow> nodes" where
  "build_nodes [] nodes = nodes"
| "build_nodes (p # ps) nodes = build_nodes ps (nodes(p_id p \<mapsto> puesto_node p))"

definition empleado_leaf :: "empleado \<Rightarrow> leaf" where
  "empleado_leaf emp =
     \<lparr> leaf_id = ''empleado_'' @ str_int (e_id emp), leaf_text = e_nombre emp,
       icon = ''fas fa-user text-secondary'', data_employee_id = e_id emp \<rparr>"

text \<open>\<^verbatim>\<open>x and x in nodes\<close> for a nullable id \<open>x\<close>.\<close>

definition truthy_in :: "int option \<Rightarrow> nodes \<Rightarrow> bool" where
  "truthy_in x nodes = (truthy x \<and> nodes (the x) \<noteq> None)"

text \<open>\<^verbatim>\<open>nodes[k]["children"].append(c)\<close>; the subscript raises on a missing key.\<close>

definition append_child :: "nodes \<Rightarrow> int \<Rightarrow> child \<Rightarrow> py_error + nodes" where
  "append_child nodes k c =
     (case nodes k of
        None \<Rightarrow> Inl KeyError
      | Some n \<Rightarrow> Inr (nodes(k \<mapsto> n\<lparr>children := children n @ [c]\<rparr>)))"

fun attach_empleados :: "empleado list \<Rightarrow> nodes \<Rightarrow> py_error + nodes" where
  "attach_empleados [] nodes = Inr nodes"
| "attach_empleados (emp # emps) nodes =
     (if truthy_in (e_puesto_id emp) nodes then
        (case append_child nodes (the (e_puesto_id emp)) (Leaf (empleado_leaf emp)) of
           Inl e \<Rightarrow> Inl e
         | Inr nodes' \<Rightarrow> attach_empleados emps nodes')
      else attach_empleados emps nodes)"

fun attach_puestos :: "puesto list \<Rightarrow> nodes \<Rightarrow> int list \<Rightarrow> py_error + nodes \<times> int list" where
  "attach_puestos [] nodes forest = Inr (nodes, forest)"
| "attach_puestos (p # ps) nodes forest =
     (case nodes (p_id p) of
        None \<Rightarrow> Inl KeyError
      | Some n \<Rightarrow>
          if truthy_in (jefe_puesto_id p) nodes then
            (case append_child nodes (the (jefe_puesto_id p)) (Node_ref (p_id p)) of
               Inl e \<Rightarrow> Inl e
             | Inr nodes' \<Rightarrow> attach_puestos ps nodes' forest)
          else attach_puestos ps nodes (forest @ [p_id p]))"

text \<open>
  The structure the function hands to \<^verbatim>\<open>jsonify\<close>: the store of position
  dictionaries and the list \<^verbatim>\<open>forest\<close> of references to the roots.
\<close>

definition organigrama_forest :: "puesto list \<Rightarrow> empleado list \<Rightarrow> py_error + nodes \<times> int list" where
  "organigrama_forest puestos empleados =
     (case attach_empleados empleados (build_nodes puestos Map.empty) of
        Inl e \<Rightarrow> Inl e
      | Inr nodes \<Rightarrow> attach_puestos puestos nodes [])"

text \<open>
  The serialised payload: references are followed, so a position appears with its
  subtree. The serialiser stops with an error on a structure that contains itself;
  the depth bound stands for that, \<open>None\<close> being the error.
\<close>

datatype tree = Tree_node string string "tree list" | Tree_leaf leaf

fun render :: "nat \<Rightarrow> nodes \<Rightarrow> child \<Rightarrow> tree option" where
  "render 0 nodes c = None"
| "render (Suc d) nodes (Leaf l) = Some (Tree_leaf l)"
| "render (Suc d) nodes (Node_ref k) =
     (case nodes k of
        None \<Rightarrow> None
      | Some n \<Rightarrow>
          map_option (Tree_node (node_id n) (node_text n))
            (those (map (render d nodes) (children n))))"

definition organigrama_data :: "nat \<Rightarrow> puesto list \<Rightarrow> empleado list \<Rightarrow> tree list option" where
  "organigrama_data d puestos empleados =
     (case organigrama_forest puestos empleados of
        Inl e \<Rightarrow> None
      | Inr (nodes, forest) \<Rightarrow> those (map (\<lambda>k. render d nodes (Node_ref k)) forest))"

fun tree_employee_ids :: "tree \<Rightarrow> int set" where
  "tree_employee_ids (Tree_leaf l) = {data_employee_id l}"
| "tree_employee_ids (Tree_node i t cs) = (\<Union>c \<in> set cs. tree_employee_ids c)"

subsection \<open>Submitting results (\<^verbatim>\<open>mis_kpis\<close>, POST branch)\<close>

text \<open>
  The form sends three parallel lists; the loop runs over their \<^verbatim>\<open>zip\<close>.
  Ids arrive as text and the store compares them with integer columns; the model
  takes them as the integers the store reads.

  \<open>pf\<close> is Python's \<^verbatim>\<open>float\<close> on a string. It returns a float, which
  is a finite number, an infinity or a NaN (\<^verbatim>\<open>float("inf")\<close>,
  \<^verbatim>\<open>float("1e999")\<close> and \<^verbatim>\<open>float("nan")\<close> all return), or it raises
  \<^verbatim>\<open>ValueError\<close>, which is \<open>None\<close> here.
\<close>

datatype py_float = Finite rat | Inf | Neg_inf | Nan

type_synonym parse_float = "string \<Rightarrow> py_float option"

text \<open>\<^verbatim>\<open>SELECT es_criterio FROM kpis WHERE id=%s\<close>, then
  \<^verbatim>\<open>row["es_criterio"] if row else False\<close>, read as a truth value.\<close>

definition kpi_es_criterio :: "db \<Rightarrow> int \<Rightarrow> bool" where
  "kpi_es_criterio d kpi_id =
     (case find (\<lambda>k. k_id k = kpi_id) (db_kpis d) of
        None \<Rightarrow> False
      | Some row \<Rightarrow> truthy (es_criterio row))"

text \<open>The values to store: only \<^verbatim>\<open>ValueError\<close> is caught.\<close>

definition prepare_values ::
  "parse_float \<Rightarrow> bool \<Rightarrow> string \<Rightarrow> string \<Rightarrow> py_float option \<times> string option" where
  "prepare_values pf criterio valor_s texto =
     (if criterio then (None, Some texto)
      else ((if valor_s \<noteq> [] then pf valor_s else None), None))"

text \<open>
  \<^verbatim>\<open>cur.execute\<close> writes its parameters into the statement before sending
  it. A float that is not finite has no SQL literal and the store has no such
  value: the call raises instead of writing.
\<close>

definition escape_float :: "py_float option \<Rightarrow> store_error + rat option" where
  "escape_float v =
     (case v of
        None \<Rightarrow> Inr None
      | Some (Finite q) \<Rightarrow> Inr (Some q)
      | Some _ \<Rightarrow> Inl ProgrammingError)"

definition same_key :: "int \<Rightarrow> int \<Rightarrow> date \<Rightarrow> kpi_resultado \<Rightarrow> bool" where
  "same_key empleado_id kpi_id period r =
     (r_empleado_id r = empleado_id \<and> r_kpi_id r = kpi_id \<and> periodo r = period)"

text \<open>\<^verbatim>\<open>SELECT id FROM kpi_resultados WHERE empleado_id=%s AND kpi_id=%s AND periodo=%s\<close>,
  \<^verbatim>\<open>fetchone\<close>.\<close>

definition select_existing :: "db \<Rightarrow> int \<Rightarrow> int \<Rightarrow> date \<Rightarrow> kpi_resultado option" where
  "select_existing d empleado_id kpi_id period =
     find (same_key empleado_id kpi_id period) (db_kpi_resultados d)"

text \<open>\<^verbatim>\<open>UPDATE kpi_resultados SET valor=%s, texto_resultado=%s WHERE id=%s\<close>\<close>

definition update_resultado :: "db \<Rightarrow> int \<Rightarrow> rat option \<Rightarrow> string option \<Rightarrow> db" where
  "update_resultado d rid valor_db texto_db =
     d\<lparr>db_kpi_resultados :=
         map (\<lambda>r. if r_id r = rid then r\<lparr>r_valor := valor_db, r_texto_resultado := texto_db\<rparr> else r)
           (db_kpi_resultados d)\<rparr>"

text \<open>\<^verbatim>\<open>INSERT INTO kpi_resultados (empleado_id, kpi_id, periodo, valor, texto_resultado)\<close>.
  Modelled from the spec: the schema file is not among the sources; a new result
  is open, \<^verbatim>\<open>cerrado\<close> 0 and \<^verbatim>\<open>cerrado_por\<close> null.\<close>

definition insert_resultado :: "db \<Rightarrow> int \<Rightarrow> int \<Rightarrow> date \<Rightarrow> rat option \<Rightarrow> string option \<Rightarrow> db" where
  "insert_resultado d empleado_id kpi_id period valor_db texto_db =
     d\<lparr>db_kpi_resultados := db_kpi_resultados d @
         [\<lparr> r_id = next_id (map r_id (db_kpi_resultados d)), r_empleado_id = empleado_id,
            r_kpi_id = kpi_id, periodo = period, r_valor = valor_db,
            r_texto_resultado = texto_db, cerrado = 0, cerrado_por = None \<rparr>]\<rparr>"

text \<open>
  One turn of the loop: three calls of \<^verbatim>\<open>cur.execute\<close>, the third being
  the turn's write. A call raises when the store no longer answers, and the
  third also when the value cannot be written into the statement. The result is
  the exception, if any, and the store after the turn.
\<close>

definition loop_turn ::
  "parse_float \<Rightarrow> int \<Rightarrow> date \<Rightarrow> nat \<Rightarrow> db \<Rightarrow> int \<times> string \<times> string \<Rightarrow> store_error option \<times> db" where
  "loop_turn pf target period budget d triple =
     (case triple of (kpi_id, valor_s, texto) \<Rightarrow>
        if budget = 0 then (Some OperationalError, d)
        else
          (case prepare_values pf (kpi_es_criterio d kpi_id) valor_s texto of (valor_db, texto_db) \<Rightarrow>
             if budget = 1 then (Some OperationalError, d)
             else
               (case escape_float valor_db of
                  Inl e \<Rightarrow> (Some e, d)
                | Inr v \<Rightarrow>
                    if budget = 2 then (Some OperationalError, d)
                    else
                      (case select_existing d target kpi_id period of
                         Some existing \<Rightarrow> (None, update_resultado d (r_id existing) v texto_db)
                       | None \<Rightarrow> (None, insert_resultado d target kpi_id period v texto_db)))))"

text \<open>
  The loop: an exception ends it and leaves the request, with the rows written
  so far.
\<close>

fun submit_loop ::
  "parse_float \<Rightarrow> int \<Rightarrow> date \<Rightarrow> (int \<times> string \<times> string) list \<Rightarrow> nat \<Rightarrow> db \<Rightarrow> store_error option \<times> db"
where
  "submit_loop pf target period [] budget d = (None, d)"
| "submit_loop pf target period (triple # rest) budget d =
     (case loop_turn pf target period budget d triple of
        (Some e, d') \<Rightarrow> (Some e, d')
      | (None, d') \<Rightarrow> submit_loop pf target period rest (budget - 3) d')"

text \<open>
  The POST branch. Without an employee in the session the request is redirected
  before anything is read. The target is the form's \<^verbatim>\<open>target_empleado_id\<close>,
  or the session's employee when the field is absent or empty.
\<close>

definition mis_kpis_post ::
  "parse_float \<Rightarrow> int option \<Rightarrow> int option \<Rightarrow> int list \<Rightarrow> string list \<Rightarrow> string list \<Rightarrow> date \<Rightarrow> nat \<Rightarrow> db
     \<Rightarrow> store_error option \<times> db"
where
  "mis_kpis_post pf session_empleado_id target_empleado_id kpi_ids vals textos today budget d =
     (case session_empleado_id of
        None \<Rightarrow> (None, d)
      | Some empleado_id \<Rightarrow>
          (let period = current_period today;
               target = (case target_empleado_id of None \<Rightarrow> empleado_id | Some t \<Rightarrow> t)
           in case submit_loop pf target period (zip kpi_ids (zip vals textos)) budget d of
                (err, d') \<Rightarrow> (err, durable d d')))"

subsection \<open>Closing a period (\<^verbatim>\<open>cerrar_periodo\<close>)\<close>

text \<open>
  One statement: \<^verbatim>\<open>UPDATE kpi_resultados SET cerrado=1, cerrado_por=%s WHERE empleado_id=%s AND periodo=%s\<close>.
  The target is the form's \<^verbatim>\<open>empleado_id\<close> or, when it is absent or empty,
  the session's employee; a null target matches no row.
\<close>

definition close_row :: "int option \<Rightarrow> int option \<Rightarrow> date \<Rightarrow> kpi_resultado \<Rightarrow> kpi_resultado" where
  "close_row closer target period r =
     (if Some (r_empleado_id r) = target \<and> periodo r = period
      then r\<lparr>cerrado := 1, cerrado_por := closer\<rparr> else r)"

definition cerrar_periodo :: "int option \<Rightarrow> int option \<Rightarrow> date \<Rightarrow> nat \<Rightarrow> db \<Rightarrow> store_error option \<times> db" where
  "cerrar_periodo empleado_id form_empleado_id today budget d =
     (let target_empleado_id = (case form_empleado_id of Some t \<Rightarrow> Some t | None \<Rightarrow> empleado_id);
          period = current_period today
      in if budget = 0 then (Some OperationalError, d)
         else (None, durable d
                 (d\<lparr>db_kpi_resultados :=
                      map (close_row empleado_id target_empleado_id period) (db_kpi_resultados d)\<rparr>)))"

text \<open>
  A stand-in for \<^verbatim>\<open>float\<close> in the examples: on a non-empty string of
  decimal digits the number it denotes, otherwise \<open>None\<close>. The examples use it
  on short digit strings and on \<^verbatim>\<open>abc\<close>, where it agrees with \<^verbatim>\<open>float\<close>.
  \<open>float_of_text\<close> also knows \<^verbatim>\<open>nan\<close> and \<^verbatim>\<open>inf\<close>.
\<close>

definition digit_value :: "char \<Rightarrow> nat" where
  "digit_value c = of_char c - 48"

definition is_ascii_digit :: "char \<Rightarrow> bool" where
  "is_ascii_digit c = (48 \<le> (of_char c :: nat) \<and> (of_char c :: nat) \<le> 57)"

definition float_of_digits :: parse_float where
  "float_of_digits s =
     (if s \<noteq> [] \<and> list_all is_ascii_digit s
      then Some (Finite (of_nat (foldl (\<lambda>n c. 10 * n + digit_value c) 0 s)))
      else None)"

definition float_of_text :: parse_float where
  "float_of_text s =
     (if s = ''nan'' then Some Nan
      else if s = ''inf'' then Some Inf
      else float_of_digits s)"

text \<open>
  What a turn writes when all three calls succeed, and the triples whose value
  can be written (used to state properties of requests that succeed).
\<close>

definition upsert :: "parse_float \<Rightarrow> int \<Rightarrow> date \<Rightarrow> db \<Rightarrow> int \<times> string \<times> string \<Rightarrow> db" where
  "upsert pf target period d triple = snd (loop_turn pf target period 3 d triple)"

definition storable :: "parse_float \<Rightarrow> db \<Rightarrow> int \<times> string \<times> string \<Rightarrow> bool" where
  "storable pf d triple =
     (case triple of (kpi_id, valor_s, texto) \<Rightarrow>
        (case escape_float (fst (prepare_values pf (kpi_es_criterio d kpi_id) valor_s texto)) of
           Inl e \<Rightarrow> False
         | Inr v \<Rightarrow> True))"

text \<open>The value a storable triple leaves in the row of its key.\<close>

definition stored_values ::
  "parse_float \<Rightarrow> db \<Rightarrow> int \<times> string \<times> string \<Rightarrow> rat option \<times> string option" where
  "stored_values pf d triple =
     (case triple of (kpi_id, valor_s, texto) \<Rightarrow>
        (case prepare_values pf (kpi_es_criterio d kpi_id) valor_s texto of (valor_db, texto_db) \<Rightarrow>
           ((case valor_db of Some (Finite q) \<Rightarrow> Some q | _ \<Rightarrow> None), texto_db)))"

definition metric_kpi :: "int \<Rightarrow> string \<Rightarrow> kpi" where
  "metric_kpi i name =
     \<lparr> k_id = i, descripcion = name, unidad_medida = None, valor_objetivo = None,
       rango_rojo_min = None, rango_rojo_max = None,
       rango_amarillo_min = None, rango_amarillo_max = None,
       rango_verde_min = None, rango_verde_max = None, es_criterio = Some 0 \<rparr>"

definition ex_db :: db where
  "ex_db =
     \<lparr> db_kpis = [metric_kpi 1 ''Ventas'', metric_kpi 2 ''Visitas''],
       db_puestos = [], db_empleados = [], db_departamentos = [],
       db_puesto_kpis = [], db_kpi_resultados = [] \<rparr>"

definition ex_later :: date where
  "ex_later = \<lparr> year = 2025, month = 3, day = 20 \<rparr>"

definition ex_today :: date where
  "ex_today = \<lparr> year = 2025, month = 3, day = 17 \<rparr>"

definition ex_resultados :: "kpi_resultado list" where
  "ex_resultados =
     [\<lparr> r_id = 1, r_empleado_id = 7, r_kpi_id = 1, periodo = current_period ex_today,
         r_valor = Some 10, r_texto_resultado = None, cerrado = 0, cerrado_por = None \<rparr>,
      \<lparr> r_id = 2, r_empleado_id = 8, r_kpi_id = 1, periodo = current_period ex_today,
         r_valor = Some 20, r_texto_resultado = None, cerrado = 0, cerrado_por = None \<rparr>]"

subsection \<open>Notions used to state the properties of the organisation chart\<close>

text \<open>
  What the two attaching loops add to the \<^verbatim>\<open>children\<close> of the position
  \<open>k\<close>: the leaves of the employees that name \<open>k\<close>, and the references to
  the positions whose boss is \<open>k\<close>; and the test that sends a position below
  its boss, over the set of position ids.
\<close>

definition add_children :: "child list \<Rightarrow> node \<Rightarrow> node" where
  "add_children cs n = n\<lparr>children := children n @ cs\<rparr>"

definition emp_children :: "empleado list \<Rightarrow> int \<Rightarrow> child list" where
  "emp_children emps k = map (\<lambda>e. Leaf (empleado_leaf e)) (filter (\<lambda>e. e_puesto_id e = Some k \<and> k \<noteq> 0) emps)"

definition has_jefe :: "int set \<Rightarrow> puesto \<Rightarrow> bool" where
  "has_jefe ids p = (case jefe_puesto_id p of None \<Rightarrow> False | Some j \<Rightarrow> j \<noteq> 0 \<and> j \<in> ids)"

definition sub_children :: "puesto list \<Rightarrow> int \<Rightarrow> child list" where
  "sub_children ps k = map (\<lambda>p. Node_ref (p_id p)) (filter (\<lambda>p. jefe_puesto_id p = Some k \<and> k \<noteq> 0) ps)"

definition result_forest :: "py_error + nodes \<times> int list \<Rightarrow> int list option" where
  "result_forest r = (case r of Inl e \<Rightarrow> None | Inr (nodes, forest) \<Rightarrow> Some forest)"

definition result_children :: "py_error + nodes \<times> int list \<Rightarrow> int \<Rightarrow> child list option" where
  "result_children r k =
     (case r of Inl e \<Rightarrow> None | Inr (nodes, forest) \<Rightarrow> map_option children (nodes k))"

definition mk_puesto :: "int \<Rightarrow> string \<Rightarrow> int option \<Rightarrow> puesto" where
  "mk_puesto i name jefe =
     \<lparr> p_id = i, p_nombre = name, departamento_id = None, jefe_puesto_id = jefe \<rparr>"

definition mk_empleado :: "int \<Rightarrow> string \<Rightarrow> int option \<Rightarrow> empleado" where
  "mk_empleado i name pid =
     \<lparr> e_id = i, id_empleado = None, e_nombre = name, e_puesto_id = pid,
       jefe_directo_id = None, email = None \<rparr>"

definition ex_puestos :: "puesto list" where
  "ex_puestos =
     [mk_puesto 1 ''Director'' None, mk_puesto 2 ''Gerente'' (Some 1),
      mk_puesto 3 ''Auditor'' (Some 99)]"

definition ex_empleados :: "empleado list" where
  "ex_empleados = [mk_empleado 10 ''Ana'' (Some 2), mk_empleado 11 ''Luis'' (Some 7)]"

subsection \<open>Viewing KPIs (\<^verbatim>\<open>mis_kpis\<close>, GET branch)\<close>

text \<open>
  The queries of the GET branch, over the tables. \<open>order_by\<close> stands for
  \<^verbatim>\<open>ORDER BY k.descripcion\<close> under the store's collation. The function
  returns the page and, as its effect on the store, the statements it issued in
  order; the log names each statement with its parameters.
\<close>

record emp_view =
  ev_id :: int
  ev_nombre :: string
  ev_puesto_id :: "int option"
  ev_puesto_nombre :: "string option"

datatype query =
    Select_empleado int
  | Select_kpis int date "int option"
  | Select_subordinate_puestos int
  | Select_empleados_in "int list"

text \<open>\<^verbatim>\<open>FROM empleados e LEFT JOIN puestos p ON e.puesto_id=p.id WHERE e.id=%s\<close>,
  \<^verbatim>\<open>fetchone\<close>.\<close>

definition select_empleado :: "db \<Rightarrow> int \<Rightarrow> emp_view option" where
  "select_empleado d empleado_id =
     (case find (\<lambda>e. e_id e = empleado_id) (db_empleados d) of
        None \<Rightarrow> None
      | Some e \<Rightarrow>
          (case find (\<lambda>p. e_puesto_id e = Some (p_id p)) (db_puestos d) of
             None \<Rightarrow> Some \<lparr> ev_id = e_id e, ev_nombre = e_nombre e,
                            ev_puesto_id = None, ev_puesto_nombre = None \<rparr>
           | Some p \<Rightarrow> Some \<lparr> ev_id = e_id e, ev_nombre = e_nombre e,
                              ev_puesto_id = Some (p_id p), ev_puesto_nombre = Some (p_nombre p) \<rparr>))"

definition join_row :: "kpi \<Rightarrow> rat option \<Rightarrow> string option \<Rightarrow> kpi_row" where
  "join_row k v t = kpi.extend k (kpi_row.fields v t)"

text \<open>\<^verbatim>\<open>LEFT JOIN kpi_resultados kr ON kr.kpi_id = k.id AND kr.empleado_id = %s AND kr.periodo = %s\<close>\<close>

definition left_join_resultados :: "db \<Rightarrow> int \<Rightarrow> date \<Rightarrow> kpi \<Rightarrow> kpi_row list" where
  "left_join_resultados d empleado_id period k =
     (case filter (\<lambda>kr. r_kpi_id kr = k_id k \<and> r_empleado_id kr = empleado_id \<and> periodo kr = period)
             (db_kpi_resultados d) of
        [] \<Rightarrow> [join_row k None None]
      | krs \<Rightarrow> map (\<lambda>kr. join_row k (r_valor kr) (r_texto_resultado kr)) krs)"

text \<open>\<^verbatim>\<open>FROM puesto_kpis pk JOIN kpis k ON pk.kpi_id = k.id LEFT JOIN ... WHERE pk.puesto_id = %s ORDER BY k.descripcion\<close>\<close>

definition select_kpis ::
  "(kpi_row list \<Rightarrow> kpi_row list) \<Rightarrow> db \<Rightarrow> int \<Rightarrow> date \<Rightarrow> int option \<Rightarrow> kpi_row list" where
  "select_kpis order_by d empleado_id period puesto_id =
     order_by
       [row. (pk_puesto_id, pk_kpi_id) \<leftarrow> db_puesto_kpis d, Some pk_puesto_id = puesto_id,
             k \<leftarrow> db_kpis d, k_id k = pk_kpi_id,
             row \<leftarrow> left_join_resultados d empleado_id period k]"

text \<open>\<^verbatim>\<open>SELECT id FROM puestos WHERE jefe_puesto_id = %s\<close>\<close>

definition select_subordinate_puestos :: "db \<Rightarrow> int \<Rightarrow> int list" where
  "select_subordinate_puestos d puesto_id =
     [p_id p. p \<leftarrow> db_puestos d, jefe_puesto_id p = Some puesto_id]"

text \<open>\<^verbatim>\<open>FROM empleados e JOIN puestos p ON e.puesto_id=p.id WHERE e.puesto_id IN (...)\<close>\<close>

definition select_empleados_in :: "db \<Rightarrow> int list \<Rightarrow> emp_view list" where
  "select_empleados_in d ids =
     [\<lparr> ev_id = e_id e, ev_nombre = e_nombre e,
        ev_puesto_id = Some (p_id p), ev_puesto_nombre = Some (p_nombre p) \<rparr>.
      e \<leftarrow> db_empleados d, p \<leftarrow> db_puestos d,
      e_puesto_id e = Some (p_id p), p_id p \<in> set ids]"

text \<open>The colouring loop: each row gets its \<^verbatim>\<open>color\<close>.\<close>

definition color_rows :: "kpi_row list \<Rightarrow> (kpi_row \<times> string option) list" where
  "color_rows rows = map (\<lambda>row. (row, compute_color row)) rows"

datatype page =
    Redirect_logout
  | Mis_kpis_no_puesto
  | Mis_kpis "(kpi_row \<times> string option) list" emp_view
      "(emp_view \<times> (kpi_row \<times> string option) list) list" date

definition mis_kpis_get ::
  "(kpi_row list \<Rightarrow> kpi_row list) \<Rightarrow> int option \<Rightarrow> date \<Rightarrow> db \<Rightarrow> page \<times> query list" where
  "mis_kpis_get order_by session_empleado_id today d =
     (case session_empleado_id of
        None \<Rightarrow> (Redirect_logout, [])
      | Some empleado_id \<Rightarrow>
          (let period = current_period today;
               emp = select_empleado d empleado_id;
               q1 = [Select_empleado empleado_id]
           in if emp = None \<or> \<not> truthy (ev_puesto_id (the emp)) then (Mis_kpis_no_puesto, q1)
              else
                (let puesto_id = the (ev_puesto_id (the emp));
                     my_kpis = color_rows (select_kpis order_by d empleado_id period (Some puesto_id));
                     subordinate_puestos = select_subordinate_puestos d puesto_id;
                     q2 = q1 @ [Select_kpis empleado_id period (Some puesto_id),
                                Select_subordinate_puestos puesto_id]
                 in if subordinate_puestos \<noteq> [] then
                      (let subordinate_emps = select_empleados_in d subordinate_puestos;
                           subordinate_data =
                             map (\<lambda>sub. (sub, color_rows
                                    (select_kpis order_by d (ev_id sub) period (ev_puesto_id sub))))
                               subordinate_emps
                       in (Mis_kpis my_kpis (the emp) subordinate_data period,
                           q2 @ Select_empleados_in subordinate_puestos
                              # map (\<lambda>sub. Select_kpis (ev_id sub) period (ev_puesto_id sub))
                                  subordinate_emps))
                    else (Mis_kpis my_kpis (the emp) [] period, q2))))"

definition page_subordinates :: "page \<Rightarrow> (emp_view \<times> (kpi_row \<times> string option) list) list" where
  "page_subordinates pg = (case pg of Mis_kpis my emp subs period \<Rightarrow> subs | _ \<Rightarrow> [])"

definition ex_org_db :: db where
  "ex_org_db =
     ex_db\<lparr> db_puestos := [mk_puesto 1 ''Director'' None, mk_puesto 2 ''Gerente'' (Some 1)],
            db_empleados := [mk_empleado 10 ''Ana'' (Some 2), mk_empleado 11 ''Luis'' (Some 1)],
            db_puesto_kpis := [(2, 1), (1, 2)] \<rparr>"

subsection \<open>Importing employees (\<^verbatim>\<open>personal\<close>, action \<^verbatim>\<open>importar\<close>)\<close>

















section \<open>Properties\<close>

subsection \<open>The threshold classifier\<close>

lemma range_matches_iff:
  "range_matches (lo, hi) v \<longleftrightarrow> lo \<noteq> None \<and> hi \<noteq> None \<and> the lo \<le> v \<and> v \<le> the hi"
  by (cases lo; cases hi) simp_all

lemma compute_color_metric:
  assumes "\<not> truthy (es_criterio row)" and "valor row = Some v"
  shows "compute_color row =
     (if range_matches (verde row) v then Some ''success''
      else if range_matches (amarillo row) v then Some ''warning''
      else if range_matches (rojo row) v then Some ''danger''
      else None)"
  using assms
  by (simp add: compute_color_def verde_def amarillo_def rojo_def range_matches_iff)

text \<open>
  Claim C2. For a metric (non-qualitative) KPI row with a value \<open>v\<close>, the colour
  computed by the code is the status of the first range, in the order green,
  yellow, red, whose two bounds are present and enclose \<open>v\<close> (both ends
  included), and none when no range matches. In particular a value inside both the
  green and the yellow range is green, and a range with a missing bound never
  gives its colour.
\<close>

theorem compute_color_first_matching_range:
  assumes "\<not> truthy (es_criterio row)" and "valor row = Some v"
  shows "status_of_color (compute_color row) = classify_spec v (rojo row) (amarillo row) (verde row)
    \<and> (range_matches (verde row) v \<and> range_matches (amarillo row) v
         \<longrightarrow> compute_color row = Some ''success'')
    \<and> (rango_verde_min row = None \<or> rango_verde_max row = None
         \<longrightarrow> compute_color row \<noteq> Some ''success'')
    \<and> (rango_amarillo_min row = None \<or> rango_amarillo_max row = None
         \<longrightarrow> compute_color row \<noteq> Some ''warning'')
    \<and> (rango_rojo_min row = None \<or> rango_rojo_max row = None
         \<longrightarrow> compute_color row \<noteq> Some ''danger'')"
proof -
  note cc = compute_color_metric [OF assms]
  have "status_of_color (compute_color row) = classify_spec v (rojo row) (amarillo row) (verde row)"
    by (simp add: cc classify_spec_def status_of_color_def)
  moreover have "range_matches (verde row) v \<and> range_matches (amarillo row) v
      \<longrightarrow> compute_color row = Some ''success''"
    by (simp add: cc)
  moreover have "rango_verde_min row = None \<or> rango_verde_max row = None
      \<longrightarrow> compute_color row \<noteq> Some ''success''"
    by (auto simp: cc verde_def range_matches_iff)
  moreover have "rango_amarillo_min row = None \<or> rango_amarillo_max row = None
      \<longrightarrow> compute_color row \<noteq> Some ''warning''"
    by (auto simp: cc amarillo_def range_matches_iff)
  moreover have "rango_rojo_min row = None \<or> rango_rojo_max row = None
      \<longrightarrow> compute_color row \<noteq> Some ''danger''"
    by (auto simp: cc rojo_def range_matches_iff)
  ultimately show ?thesis by blast
qed

theorem compute_color_first_matching_range_witness:
  "\<not> truthy (es_criterio example_row) \<and> valor example_row = Some 85
   \<and> range_matches (verde example_row) 85 \<and> range_matches (amarillo example_row) 85
   \<and> classify_spec 85 (rojo example_row) (amarillo example_row) (verde example_row) = Green
   \<and> compute_color example_row = Some ''success''
   \<and> rango_verde_max (example_row\<lparr>rango_verde_max := None\<rparr>) = None
   \<and> compute_color (example_row\<lparr>rango_verde_max := None\<rparr>) = Some ''warning''
   \<and> rango_amarillo_min (example_row\<lparr>rango_amarillo_min := None, valor := Some 60\<rparr>) = None
   \<and> compute_color (example_row\<lparr>rango_amarillo_min := None, valor := Some 60\<rparr>) = None
   \<and> rango_rojo_max (example_row\<lparr>rango_rojo_max := None, valor := Some 30\<rparr>) = None
   \<and> compute_color (example_row\<lparr>rango_rojo_max := None, valor := Some 30\<rparr>) = None"
proof -
  have h1: "\<not> truthy (es_criterio example_row)" "valor example_row = Some 85"
    by (simp_all add: example_row_def truthy_def)
  have h2: "\<not> truthy (es_criterio (example_row\<lparr>rango_verde_max := None\<rparr>))"
    "valor (example_row\<lparr>rango_verde_max := None\<rparr>) = Some 85"
    by (simp_all add: example_row_def truthy_def)
  have h3: "\<not> truthy (es_criterio (example_row\<lparr>rango_amarillo_min := None, valor := Some 60\<rparr>))"
    "valor (example_row\<lparr>rango_amarillo_min := None, valor := Some 60\<rparr>) = Some 60"
    by (simp_all add: example_row_def truthy_def)
  have h4: "\<not> truthy (es_criterio (example_row\<lparr>rango_rojo_max := None, valor := Some 30\<rparr>))"
    "valor (example_row\<lparr>rango_rojo_max := None, valor := Some 30\<rparr>) = Some 30"
    by (simp_all add: example_row_def truthy_def)
  show ?thesis
    using compute_color_first_matching_range [OF h1]
      compute_color_first_matching_range [OF h2]
      compute_color_first_matching_range [OF h3]
      compute_color_first_matching_range [OF h4]
    by (simp add: example_row_def truthy_def verde_def amarillo_def rojo_def
        classify_spec_def compute_color_def)
qed

text \<open>
  Claim C4. A qualitative KPI (\<^verbatim>\<open>es_criterio\<close> true) and a KPI without a
  value get no colour, whatever ranges are configured.
\<close>

theorem compute_color_none_when_qualitative_or_no_value:
  "truthy (es_criterio row) \<or> valor row = None \<Longrightarrow> compute_color row = None"
  by (auto simp: compute_color_def)

theorem compute_color_none_when_qualitative_or_no_value_witness:
  "truthy (es_criterio (example_row\<lparr>es_criterio := Some 1\<rparr>))
   \<and> compute_color (example_row\<lparr>es_criterio := Some 1\<rparr>) = None
   \<and> valor (example_row\<lparr>valor := None\<rparr>) = None
   \<and> compute_color (example_row\<lparr>valor := None\<rparr>) = None"
proof -
  have h1: "truthy (es_criterio (example_row\<lparr>es_criterio := Some 1\<rparr>))
      \<or> valor (example_row\<lparr>es_criterio := Some 1\<rparr>) = None"
    by (simp add: example_row_def truthy_def)
  have h2: "truthy (es_criterio (example_row\<lparr>valor := None\<rparr>))
      \<or> valor (example_row\<lparr>valor := None\<rparr>) = None"
    by simp
  show ?thesis
    using compute_color_none_when_qualitative_or_no_value [OF h1]
      compute_color_none_when_qualitative_or_no_value [OF h2]
    by (simp add: example_row_def truthy_def)
qed

subsection \<open>The organisation chart\<close>

lemma build_nodes_children:
  "(\<And>k n. nodes k = Some n \<Longrightarrow> children n = []) \<Longrightarrow> build_nodes ps nodes k = Some n \<Longrightarrow> children n = []"
proof (induction ps arbitrary: nodes)
  case Nil
  then show ?case by simp
next
  case (Cons p ps)
  show ?case
  proof (rule Cons.IH)
    show "build_nodes ps (nodes(p_id p \<mapsto> puesto_node p)) k = Some n"
      using Cons.prems(2) by simp
  next
    fix k' n' assume "(nodes(p_id p \<mapsto> puesto_node p)) k' = Some n'"
    then show "children n' = []"
      using Cons.prems(1) by (auto simp: puesto_node_def split: if_splits)
  qed
qed

lemma build_nodes_dom: "build_nodes ps nodes k \<noteq> None \<longleftrightarrow> nodes k \<noteq> None \<or> k \<in> p_id ` set ps"
  by (induction ps arbitrary: nodes) auto

lemma attach_empleados_char:
  "\<exists>nodes'. attach_empleados emps nodes = Inr nodes'
     \<and> (\<forall>k. nodes' k = map_option (add_children (emp_children emps k)) (nodes k))"
proof (induction emps arbitrary: nodes)
  case Nil
  show ?case by (simp add: emp_children_def add_children_def option.map_ident)
next
  case (Cons e es)
  show ?case
  proof (cases "truthy_in (e_puesto_id e) nodes")
    case False
    then have "\<And>k. nodes k \<noteq> None \<Longrightarrow> \<not> (e_puesto_id e = Some k \<and> k \<noteq> 0)"
      by (auto simp: truthy_in_def truthy_def)
    then have "\<And>k. map_option (add_children (emp_children (e # es) k)) (nodes k)
        = map_option (add_children (emp_children es k)) (nodes k)"
      by (case_tac "nodes k") (auto simp: emp_children_def)
    with False Cons.IH [of nodes] show ?thesis by simp
  next
    case True
    then obtain q n where q: "e_puesto_id e = Some q" "q \<noteq> 0" "nodes q = Some n"
      by (auto simp: truthy_in_def truthy_def split: option.splits)
    define nodes1 where "nodes1 = nodes(q \<mapsto> n\<lparr>children := children n @ [Leaf (empleado_leaf e)]\<rparr>)"
    have step: "attach_empleados (e # es) nodes = attach_empleados es nodes1"
      using True q by (simp add: append_child_def nodes1_def)
    from Cons.IH [of nodes1] obtain nodes' where
      r: "attach_empleados es nodes1 = Inr nodes'"
        "\<And>k. nodes' k = map_option (add_children (emp_children es k)) (nodes1 k)"
      by blast
    have "\<And>k. map_option (add_children (emp_children es k)) (nodes1 k)
        = map_option (add_children (emp_children (e # es) k)) (nodes k)"
      using q by (auto simp: nodes1_def emp_children_def add_children_def)
    with r step show ?thesis by simp
  qed
qed

lemma truthy_in_has_jefe: "truthy_in (jefe_puesto_id p) nodes \<longleftrightarrow> has_jefe (dom nodes) p"
  by (auto simp: truthy_in_def truthy_def has_jefe_def dom_def split: option.splits)

lemma attach_puestos_char:
  assumes "\<And>p. p \<in> set ps \<Longrightarrow> nodes (p_id p) \<noteq> None"
  shows "\<exists>nodes'. attach_puestos ps nodes forest =
        Inr (nodes', forest @ map p_id (filter (\<lambda>p. \<not> has_jefe (dom nodes) p) ps))
     \<and> (\<forall>k. nodes' k = map_option (add_children (sub_children ps k)) (nodes k))"
  using assms
proof (induction ps arbitrary: nodes forest)
  case Nil
  show ?case by (simp add: sub_children_def add_children_def option.map_ident)
next
  case (Cons p ps)
  obtain n0 where n0: "nodes (p_id p) = Some n0" using Cons.prems [of p] by auto
  show ?case
  proof (cases "has_jefe (dom nodes) p")
    case False
    then have "\<And>k. nodes k \<noteq> None \<Longrightarrow> \<not> (jefe_puesto_id p = Some k \<and> k \<noteq> 0)"
      by (auto simp: has_jefe_def dom_def)
    then have eq: "\<And>k. map_option (add_children (sub_children (p # ps) k)) (nodes k)
        = map_option (add_children (sub_children ps k)) (nodes k)"
      by (case_tac "nodes k") (auto simp: sub_children_def)
    have pre: "\<And>p'. p' \<in> set ps \<Longrightarrow> nodes (p_id p') \<noteq> None" using Cons.prems by simp
    from Cons.IH [of nodes "forest @ [p_id p]", OF pre] False n0 eq show ?thesis
      by (simp add: truthy_in_has_jefe)
  next
    case True
    then obtain j n where j: "jefe_puesto_id p = Some j" "j \<noteq> 0" "nodes j = Some n"
      by (auto simp: has_jefe_def dom_def split: option.splits)
    define nodes1 where "nodes1 = nodes(j \<mapsto> n\<lparr>children := children n @ [Node_ref (p_id p)]\<rparr>)"
    have step: "attach_puestos (p # ps) nodes forest = attach_puestos ps nodes1 forest"
    proof -
      have "truthy_in (jefe_puesto_id p) nodes" using True by (simp add: truthy_in_has_jefe)
      then show ?thesis using j n0 by (simp add: append_child_def nodes1_def)
    qed
    have d: "dom nodes1 = dom nodes" using j by (auto simp: nodes1_def)
    have pre: "\<And>p'. p' \<in> set ps \<Longrightarrow> nodes1 (p_id p') \<noteq> None"
      using Cons.prems by (simp add: nodes1_def)
    from Cons.IH [of nodes1 forest, OF pre] obtain nodes' where
      r: "attach_puestos ps nodes1 forest = Inr (nodes', forest @ map p_id (filter (\<lambda>p. \<not> has_jefe (dom nodes1) p) ps))"
        "\<And>k. nodes' k = map_option (add_children (sub_children ps k)) (nodes1 k)"
      by blast
    have "\<And>k. map_option (add_children (sub_children ps k)) (nodes1 k)
        = map_option (add_children (sub_children (p # ps) k)) (nodes k)"
      using j by (auto simp: nodes1_def sub_children_def add_children_def)
    with r step True d show ?thesis by simp
  qed
qed

lemma organigrama_forest_char:
  "\<exists>nodes. organigrama_forest puestos empleados =
        Inr (nodes, map p_id (filter (\<lambda>p. \<not> has_jefe (p_id ` set puestos) p) puestos))
     \<and> dom nodes = p_id ` set puestos
     \<and> (\<forall>k n. nodes k = Some n \<longrightarrow>
           children n = emp_children empleados k @ sub_children puestos k)"
proof -
  define nodes0 where "nodes0 = build_nodes puestos Map.empty"
  have d0: "dom nodes0 = p_id ` set puestos"
    using build_nodes_dom [of puestos Map.empty] by (auto simp: nodes0_def)
  have c0: "\<And>k n. nodes0 k = Some n \<Longrightarrow> children n = []"
    unfolding nodes0_def by (rule build_nodes_children [of Map.empty]) simp_all
  from attach_empleados_char [of empleados nodes0] obtain nodes1 where
    n1: "attach_empleados empleados nodes0 = Inr nodes1"
      "\<And>k. nodes1 k = map_option (add_children (emp_children empleados k)) (nodes0 k)"
    by blast
  have d1: "dom nodes1 = dom nodes0" by (auto simp: n1(2) dom_def)
  have pre: "\<And>p. p \<in> set puestos \<Longrightarrow> nodes1 (p_id p) \<noteq> None"
    using d1 d0 by (auto simp: dom_def)
  from attach_puestos_char [of puestos nodes1 "[]", OF pre] obtain nodes2 where
    n2: "attach_puestos puestos nodes1 [] =
          Inr (nodes2, map p_id (filter (\<lambda>p. \<not> has_jefe (dom nodes1) p) puestos))"
      "\<And>k. nodes2 k = map_option (add_children (sub_children puestos k)) (nodes1 k)"
    by auto
  have d2: "dom nodes2 = p_id ` set puestos" using d1 d0 by (auto simp: n2(2) dom_def)
  have ch: "children n = emp_children empleados k @ sub_children puestos k" if "nodes2 k = Some n" for k n
  proof -
    from that obtain m1 where m1: "nodes1 k = Some m1" "n = add_children (sub_children puestos k) m1"
      by (auto simp: n2(2))
    then obtain m0 where m0: "nodes0 k = Some m0" "m1 = add_children (emp_children empleados k) m0"
      by (auto simp: n1(2))
    with m1 c0 [OF m0(1)] show ?thesis by (simp add: add_children_def)
  qed
  have "organigrama_forest puestos empleados =
      Inr (nodes2, map p_id (filter (\<lambda>p. \<not> has_jefe (p_id ` set puestos) p) puestos))"
    using n1(1) n2(1) d1 d0 by (simp add: organigrama_forest_def nodes0_def)
  with d2 ch show ?thesis by blast
qed

lemma those_map_Some:
  "those (map f xs) = Some ys \<Longrightarrow> list_all2 (\<lambda>x y. f x = Some y) xs ys"
  by (induction xs arbitrary: ys) (auto split: option.splits)

lemma render_employee_ids:
  assumes "\<And>k n l. nodes k = Some n \<Longrightarrow> Leaf l \<in> set (children n) \<Longrightarrow> data_employee_id l \<noteq> i"
  shows "render d nodes c = Some t \<Longrightarrow> (\<And>l. c = Leaf l \<Longrightarrow> data_employee_id l \<noteq> i) \<Longrightarrow> i \<notin> tree_employee_ids t"
proof (induction d arbitrary: c t)
  case 0
  then show ?case by simp
next
  case (Suc d)
  show ?case
  proof (cases c)
    case (Leaf l)
    with Suc.prems show ?thesis by auto
  next
    case (Node_ref k)
    with Suc.prems(1) obtain n ts where n: "nodes k = Some n"
      and ts: "those (map (render d nodes) (children n)) = Some ts"
      and t: "t = Tree_node (node_id n) (node_text n) ts"
      by (auto split: option.splits)
    have la: "list_all2 (\<lambda>x y. render d nodes x = Some y) (children n) ts"
      using those_map_Some [OF ts] .
    have "i \<notin> tree_employee_ids t'" if "t' \<in> set ts" for t'
    proof -
      from that obtain j where j: "j < length ts" "ts ! j = t'"
        by (auto simp: in_set_conv_nth)
      with la have "children n ! j \<in> set (children n)" "render d nodes (children n ! j) = Some t'"
        by (auto simp: list_all2_conv_all_nth)
      then obtain c' where c': "c' \<in> set (children n)" "render d nodes c' = Some t'"
        by blast
      show ?thesis
      proof (cases c')
        case (Leaf l)
        with assms [OF n] c'(1) have "data_employee_id l \<noteq> i" by blast
        with Suc.IH [OF c'(2)] Leaf show ?thesis by auto
      next
        case (Node_ref k')
        with Suc.IH [OF c'(2)] show ?thesis by blast
      qed
    qed
    with t show ?thesis by simp
  qed
qed

lemma has_jefe_iff:
  "has_jefe ids p \<longleftrightarrow> (\<exists>j. jefe_puesto_id p = Some j \<and> j \<noteq> 0 \<and> j \<in> ids)"
  by (auto simp: has_jefe_def split: option.splits)

text \<open>
  The builder never raises, and its test \<^verbatim>\<open>if jefe and jefe in nodes\<close> sends
  a position below its boss exactly when \<open>has_jefe\<close> holds of it.
\<close>

lemma organigrama_forest_roots:
  "result_forest (organigrama_forest puestos empleados) =
      Some (map p_id (filter (\<lambda>p. \<not> has_jefe (p_id ` set puestos) p) puestos))
   \<and> (\<forall>p \<in> set puestos.
         (jefe_puesto_id p = None
            \<or> (\<exists>j. jefe_puesto_id p = Some j \<and> (j = 0 \<or> j \<notin> p_id ` set puestos))
          \<longrightarrow> (\<exists>forest. result_forest (organigrama_forest puestos empleados) = Some forest
                 \<and> p_id p \<in> set forest))
       \<and> (\<forall>j. jefe_puesto_id p = Some j \<and> j \<noteq> 0 \<and> j \<in> p_id ` set puestos
          \<longrightarrow> (\<exists>cs. result_children (organigrama_forest puestos empleados) j = Some cs
                 \<and> Node_ref (p_id p) \<in> set cs)))"
proof -
  let ?ids = "p_id ` set puestos"
  let ?roots = "map p_id (filter (\<lambda>p. \<not> has_jefe ?ids p) puestos)"
  from organigrama_forest_char [of puestos empleados] obtain nodes where
    r: "organigrama_forest puestos empleados = Inr (nodes, ?roots)"
    and d: "dom nodes = ?ids"
    and ch: "\<And>k n. nodes k = Some n \<Longrightarrow>
          children n = emp_children empleados k @ sub_children puestos k"
    by blast
  have rf: "result_forest (organigrama_forest puestos empleados) = Some ?roots"
    by (simp add: r result_forest_def)
  have rc: "result_children (organigrama_forest puestos empleados) k = map_option children (nodes k)"
    for k
    by (simp add: r result_children_def)
  have roots: "p_id p \<in> set ?roots"
    if "p \<in> set puestos"
      and "jefe_puesto_id p = None \<or> (\<exists>j. jefe_puesto_id p = Some j \<and> (j = 0 \<or> j \<notin> ?ids))"
    for p
  proof -
    from that(2) have "\<not> has_jefe ?ids p" by (auto simp: has_jefe_iff)
    with that(1) show ?thesis by auto
  qed
  have kids: "\<exists>cs. result_children (organigrama_forest puestos empleados) j = Some cs
        \<and> Node_ref (p_id p) \<in> set cs"
    if "p \<in> set puestos" and "jefe_puesto_id p = Some j" and "j \<noteq> 0" and "j \<in> ?ids"
    for p j
  proof -
    from that(4) d obtain n where n: "nodes j = Some n" by (auto simp: dom_def)
    have "Node_ref (p_id p) \<in> set (sub_children puestos j)"
      using that(1-3) by (auto simp: sub_children_def)
    with ch [OF n] n show ?thesis by (simp add: rc)
  qed
  show ?thesis
  proof (intro conjI ballI impI allI)
    show "result_forest (organigrama_forest puestos empleados) = Some ?roots" by (rule rf)
  next
    fix p
    assume "p \<in> set puestos"
      and "jefe_puesto_id p = None \<or> (\<exists>j. jefe_puesto_id p = Some j \<and> (j = 0 \<or> j \<notin> ?ids))"
    then have "p_id p \<in> set ?roots" by (rule roots)
    with rf show "\<exists>forest. result_forest (organigrama_forest puestos empleados) = Some forest
        \<and> p_id p \<in> set forest"
      by blast
  next
    fix p j
    assume "p \<in> set puestos" and "jefe_puesto_id p = Some j \<and> j \<noteq> 0 \<and> j \<in> ?ids"
    then show "\<exists>cs. result_children (organigrama_forest puestos empleados) j = Some cs
        \<and> Node_ref (p_id p) \<in> set cs"
      using kids [of p j] by blast
  qed
qed

lemma next_id_positive: "1 \<le> next_id ids"
proof -
  have "0 \<le> foldr max ids (0::int)" by (induction ids) auto
  then show ?thesis by (simp add: next_id_def)
qed

text \<open>
  Claim C3. Position ids are the keys the store assigns, which start at 1
  (\<open>next_id_positive\<close>), so no supplied position has the id 0. For every such
  input the builder does not raise; each position whose boss reference is null, or
  whose boss id belongs to no supplied position, is a root of the forest; and each
  position whose boss id belongs to a supplied position is appended to the
  children of that boss. The forest is the list of the ids of the positions of the
  first kind, in the order supplied.
\<close>

theorem organigrama_roots_and_children:
  assumes "0 \<notin> p_id ` set puestos"
  shows "result_forest (organigrama_forest puestos empleados) =
      Some (map p_id
              (filter (\<lambda>p. case jefe_puesto_id p of None \<Rightarrow> True
                              | Some j \<Rightarrow> j \<notin> p_id ` set puestos) puestos))
   \<and> (\<forall>p \<in> set puestos.
         (jefe_puesto_id p = None
            \<or> (\<exists>j. jefe_puesto_id p = Some j \<and> j \<notin> p_id ` set puestos)
          \<longrightarrow> (\<exists>forest. result_forest (organigrama_forest puestos empleados) = Some forest
                 \<and> p_id p \<in> set forest))
       \<and> (\<forall>j. jefe_puesto_id p = Some j \<and> j \<in> p_id ` set puestos
          \<longrightarrow> (\<exists>cs. result_children (organigrama_forest puestos empleados) j = Some cs
                 \<and> Node_ref (p_id p) \<in> set cs)))"
proof -
  let ?ids = "p_id ` set puestos"
  note general = organigrama_forest_roots [of puestos empleados]
  have same: "(\<not> has_jefe ?ids p) = (case jefe_puesto_id p of None \<Rightarrow> True | Some j \<Rightarrow> j \<notin> ?ids)"
    for p
    using assms by (auto simp: has_jefe_def split: option.splits)
  have forest: "result_forest (organigrama_forest puestos empleados) =
      Some (map p_id (filter (\<lambda>p. case jefe_puesto_id p of None \<Rightarrow> True
                                | Some j \<Rightarrow> j \<notin> ?ids) puestos))"
    using general [THEN conjunct1] by (simp add: same)
  have roots: "\<exists>forest. result_forest (organigrama_forest puestos empleados) = Some forest
        \<and> p_id p \<in> set forest"
    if "p \<in> set puestos"
      and "jefe_puesto_id p = None \<or> (\<exists>j. jefe_puesto_id p = Some j \<and> j \<notin> ?ids)"
    for p
  proof -
    from that(2) have "jefe_puesto_id p = None
        \<or> (\<exists>j. jefe_puesto_id p = Some j \<and> (j = 0 \<or> j \<notin> ?ids))"
      by blast
    with general [THEN conjunct2, rule_format, OF that(1), THEN conjunct1] show ?thesis
      by (rule mp)
  qed
  have kids: "\<exists>cs. result_children (organigrama_forest puestos empleados) j = Some cs
        \<and> Node_ref (p_id p) \<in> set cs"
    if "p \<in> set puestos" and "jefe_puesto_id p = Some j \<and> j \<in> ?ids" for p j
  proof -
    from that(2) assms have "jefe_puesto_id p = Some j \<and> j \<noteq> 0 \<and> j \<in> ?ids" by auto
    with general [THEN conjunct2, rule_format, OF that(1), THEN conjunct2, rule_format, of j]
    show ?thesis by blast
  qed
  show ?thesis
  proof (intro conjI ballI impI allI)
    show "result_forest (organigrama_forest puestos empleados) =
      Some (map p_id (filter (\<lambda>p. case jefe_puesto_id p of None \<Rightarrow> True
                                | Some j \<Rightarrow> j \<notin> ?ids) puestos))"
      by (rule forest)
  next
    fix p
    assume "p \<in> set puestos"
      and "jefe_puesto_id p = None \<or> (\<exists>j. jefe_puesto_id p = Some j \<and> j \<notin> ?ids)"
    then show "\<exists>forest. result_forest (organigrama_forest puestos empleados) = Some forest
        \<and> p_id p \<in> set forest"
      by (rule roots)
  next
    fix p j
    assume "p \<in> set puestos" and "jefe_puesto_id p = Some j \<and> j \<in> ?ids"
    then show "\<exists>cs. result_children (organigrama_forest puestos empleados) j = Some cs
        \<and> Node_ref (p_id p) \<in> set cs"
      by (rule kids)
  qed
qed

theorem organigrama_roots_and_children_witness:
  "0 \<notin> p_id ` set ex_puestos
   \<and> jefe_puesto_id (ex_puestos ! 0) = None
   \<and> jefe_puesto_id (ex_puestos ! 1) = Some 1 \<and> 1 \<in> p_id ` set ex_puestos
   \<and> jefe_puesto_id (ex_puestos ! 2) = Some 99 \<and> 99 \<notin> p_id ` set ex_puestos
   \<and> result_forest (organigrama_forest ex_puestos ex_empleados) = Some [1, 3]
   \<and> result_children (organigrama_forest ex_puestos ex_empleados) 1 = Some [Node_ref 2]"
proof -
  have h: "0 \<notin> p_id ` set ex_puestos"
    by (simp add: ex_puestos_def mk_puesto_def)
  have e: "jefe_puesto_id (ex_puestos ! 0) = None
   \<and> jefe_puesto_id (ex_puestos ! 1) = Some 1 \<and> 1 \<in> p_id ` set ex_puestos
   \<and> jefe_puesto_id (ex_puestos ! 2) = Some 99 \<and> 99 \<notin> p_id ` set ex_puestos"
    by (simp add: ex_puestos_def mk_puesto_def)
  have "result_forest (organigrama_forest ex_puestos ex_empleados) =
      Some (map p_id
              (filter (\<lambda>p. case jefe_puesto_id p of None \<Rightarrow> True
                              | Some j \<Rightarrow> j \<notin> p_id ` set ex_puestos) ex_puestos))"
    by (rule organigrama_roots_and_children [OF h, of ex_empleados, THEN conjunct1])
  also have "map p_id
              (filter (\<lambda>p. case jefe_puesto_id p of None \<Rightarrow> True
                              | Some j \<Rightarrow> j \<notin> p_id ` set ex_puestos) ex_puestos) = [1, 3]"
    by (simp add: ex_puestos_def mk_puesto_def)
  finally have f: "result_forest (organigrama_forest ex_puestos ex_empleados) = Some [1, 3]" .
  have c: "result_children (organigrama_forest ex_puestos ex_empleados) 1 = Some [Node_ref 2]"
    by code_simp
  from h e f c show ?thesis by simp
qed

text \<open>
  Claim C10. An employee whose position id is not null and belongs to no supplied
  position is left out: no leaf carrying the employee's id is in any position's
  children, nor anywhere in the serialised forest, and the builder does not raise.
  Every leaf that is attached comes from an employee whose position id is the key
  of a supplied position. (Employee ids are the table's key, so they are distinct.)
\<close>

theorem organigrama_omits_employee_without_node:
  assumes "distinct (map e_id empleados)" and "emp \<in> set empleados"
    and "e_puesto_id emp = Some q" and "q \<notin> p_id ` set puestos"
  shows "result_forest (organigrama_forest puestos empleados) \<noteq> None
     \<and> (\<forall>k cs l. result_children (organigrama_forest puestos empleados) k = Some cs
             \<and> Leaf l \<in> set cs \<longrightarrow>
           data_employee_id l \<noteq> e_id emp
           \<and> (\<exists>e \<in> set empleados. l = empleado_leaf e \<and> e_puesto_id e = Some k
                 \<and> k \<in> p_id ` set puestos))
     \<and> (\<forall>d trees. organigrama_data d puestos empleados = Some trees \<longrightarrow>
           (\<forall>t \<in> set trees. e_id emp \<notin> tree_employee_ids t))"
proof -
  let ?ids = "p_id ` set puestos"
  from organigrama_forest_char [of puestos empleados] obtain nodes forest where
    r: "organigrama_forest puestos empleados = Inr (nodes, forest)"
    and d: "dom nodes = ?ids"
    and ch: "\<And>k n. nodes k = Some n \<Longrightarrow>
          children n = emp_children empleados k @ sub_children puestos k"
    by blast
  have rc: "result_children (organigrama_forest puestos empleados) k = map_option children (nodes k)"
    for k
    by (simp add: r result_children_def)
  have src: "\<exists>e \<in> set empleados. l = empleado_leaf e \<and> e_puesto_id e = Some k \<and> k \<in> ?ids"
    if "nodes k = Some n" and "Leaf l \<in> set (children n)" for k n l
  proof -
    from that(1) d have "k \<in> ?ids" by (auto simp: dom_def)
    moreover from that ch [OF that(1)] have "Leaf l \<in> set (emp_children empleados k)"
      by (auto simp: sub_children_def)
    ultimately show ?thesis by (auto simp: emp_children_def)
  qed
  have inj: "inj_on e_id (set empleados)"
    using assms(1) by (simp add: distinct_map)
  have no: "data_employee_id l \<noteq> e_id emp"
    if "nodes k = Some n" and "Leaf l \<in> set (children n)" for k n l
  proof
    assume eq: "data_employee_id l = e_id emp"
    from src [OF that] obtain e where e: "e \<in> set empleados" "l = empleado_leaf e"
      "e_puesto_id e = Some k" "k \<in> ?ids" by blast
    from e(2) eq have "e_id e = e_id emp" by (simp add: empleado_leaf_def)
    with inj e(1) assms(2) have "e = emp" by (auto dest: inj_onD)
    with e(3,4) assms(3,4) show False by simp
  qed
  have out: "e_id emp \<notin> tree_employee_ids t"
    if "organigrama_data d puestos empleados = Some trees" and "t \<in> set trees" for d trees t
  proof -
    from that(1) r have ts: "those (map (\<lambda>k. render d nodes (Node_ref k)) forest) = Some trees"
      by (simp add: organigrama_data_def)
    from that(2) obtain j where j: "j < length trees" "trees ! j = t"
      by (auto simp: in_set_conv_nth)
    with those_map_Some [OF ts] have "render d nodes (Node_ref (forest ! j)) = Some t"
      by (auto simp: list_all2_conv_all_nth)
    then show ?thesis
      by (rule render_employee_ids [rotated]) (use no in auto)
  qed
  show ?thesis
  proof (intro conjI allI impI ballI)
    show "result_forest (organigrama_forest puestos empleados) \<noteq> None"
      by (simp add: r result_forest_def)
  next
    fix k cs l
    assume a: "result_children (organigrama_forest puestos empleados) k = Some cs
        \<and> Leaf l \<in> set cs"
    then obtain n where n: "nodes k = Some n" "cs = children n" by (auto simp: rc)
    with a have l: "Leaf l \<in> set (children n)" by simp
    from no [OF n(1) l] show "data_employee_id l \<noteq> e_id emp" .
    from src [OF n(1) l]
    show "\<exists>e \<in> set empleados. l = empleado_leaf e \<and> e_puesto_id e = Some k \<and> k \<in> ?ids" .
  next
    fix d trees t
    assume "organigrama_data d puestos empleados = Some trees" and "t \<in> set trees"
    then show "e_id emp \<notin> tree_employee_ids t" by (rule out)
  qed
qed

theorem organigrama_omits_employee_without_node_witness:
  "distinct (map e_id ex_empleados) \<and> ex_empleados ! 1 \<in> set ex_empleados
   \<and> e_puesto_id (ex_empleados ! 1) = Some 7 \<and> 7 \<notin> p_id ` set ex_puestos
   \<and> organigrama_data 3 ex_puestos ex_empleados =
       Some [Tree_node ''puesto_1'' ''Director''
               [Tree_node ''puesto_2'' ''Gerente'' [Tree_leaf (empleado_leaf (ex_empleados ! 0))]],
             Tree_node ''puesto_3'' ''Auditor'' []]
   \<and> e_id (ex_empleados ! 1) \<notin> tree_employee_ids
         (Tree_node ''puesto_1'' ''Director''
            [Tree_node ''puesto_2'' ''Gerente'' [Tree_leaf (empleado_leaf (ex_empleados ! 0))]])"
proof -
  have h: "distinct (map e_id ex_empleados)" "ex_empleados ! 1 \<in> set ex_empleados"
    "e_puesto_id (ex_empleados ! 1) = Some 7" "7 \<notin> p_id ` set ex_puestos"
    by (simp_all add: ex_empleados_def ex_puestos_def mk_empleado_def mk_puesto_def)
  have e: "organigrama_data 3 ex_puestos ex_empleados =
       Some [Tree_node ''puesto_1'' ''Director''
               [Tree_node ''puesto_2'' ''Gerente'' [Tree_leaf (empleado_leaf (ex_empleados ! 0))]],
             Tree_node ''puesto_3'' ''Auditor'' []]"
    by code_simp
  note inst = organigrama_omits_employee_without_node [OF h]
  have "e_id (ex_empleados ! 1) \<notin> tree_employee_ids
         (Tree_node ''puesto_1'' ''Director''
            [Tree_node ''puesto_2'' ''Gerente'' [Tree_leaf (empleado_leaf (ex_empleados ! 0))]])"
    by (rule inst [THEN conjunct2, THEN conjunct2, rule_format, OF e]) simp
  with h e show ?thesis by simp
qed

subsection \<open>Submitting results and closing a period\<close>

text \<open>
  Claim C8. When the store executes the statement, closing a period sets
  \<^verbatim>\<open>cerrado\<close> to 1 and \<^verbatim>\<open>cerrado_por\<close> to the closer on every result of
  the target employee and the period, and changes nothing else: the key, the
  numeric value and the text of those rows stay, and every other row is untouched.
\<close>

theorem cerrar_periodo_closes_and_keeps_values:
  assumes "0 < budget"
    and "target = (case form_empleado_id of Some t \<Rightarrow> Some t | None \<Rightarrow> closer)"
  shows "fst (cerrar_periodo closer form_empleado_id today budget d) = None
     \<and> list_all2
          (\<lambda>r r'. r_id r' = r_id r \<and> r_empleado_id r' = r_empleado_id r
               \<and> r_kpi_id r' = r_kpi_id r \<and> periodo r' = periodo r
               \<and> r_valor r' = r_valor r \<and> r_texto_resultado r' = r_texto_resultado r
               \<and> (if Some (r_empleado_id r) = target \<and> periodo r = current_period today
                   then cerrado r' = 1 \<and> cerrado_por r' = closer
                   else r' = r))
          (db_kpi_resultados d)
          (db_kpi_resultados (snd (cerrar_periodo closer form_empleado_id today budget d)))"
  using assms
  by (simp add: cerrar_periodo_def durable_def DB_CONFIG_autocommit_def Let_def
      list_all2_map2 close_row_def list_all2_same)

theorem cerrar_periodo_closes_and_keeps_values_witness:
  "(0::nat) < 1
   \<and> fst (cerrar_periodo (Some 3) (Some 7) ex_today 1 (ex_db\<lparr>db_kpi_resultados := ex_resultados\<rparr>)) = None
   \<and> map (\<lambda>r. (r_empleado_id r, r_valor r, cerrado r, cerrado_por r))
        (db_kpi_resultados
           (snd (cerrar_periodo (Some 3) (Some 7) ex_today 1 (ex_db\<lparr>db_kpi_resultados := ex_resultados\<rparr>))))
       = [(7, Some 10, 1, Some 3), (8, Some 20, 0, None)]"
proof -
  have h: "(0::nat) < 1" "Some 7 = (case Some (7::int) of Some t \<Rightarrow> Some t | None \<Rightarrow> Some 3)"
    by simp_all
  note inst = cerrar_periodo_closes_and_keeps_values
    [OF h, of ex_today "ex_db\<lparr>db_kpi_resultados := ex_resultados\<rparr>"]
  have e: "map (\<lambda>r. (r_empleado_id r, r_valor r, cerrado r, cerrado_por r))
        (db_kpi_resultados
           (snd (cerrar_periodo (Some 3) (Some 7) ex_today 1 (ex_db\<lparr>db_kpi_resultados := ex_resultados\<rparr>))))
       = [(7, Some 10, 1, Some 3), (8, Some 20, 0, None)]"
    by code_simp
  from inst [THEN conjunct1] e show ?thesis by simp
qed

text \<open>
  Claim C1 does not hold of the code. With two triples and a store that fails at
  the fifth statement, the request fails and the first triple's row stays written
  while the second's is missing: the statements are committed one by one.
\<close>

theorem submit_partial_write_on_store_failure:
  "db_kpi_resultados ex_db = []
   \<and> fst (mis_kpis_post float_of_digits (Some 7) None [1, 2] [''10'', ''20''] ['''', ''''] ex_today 4 ex_db)
       = Some OperationalError
   \<and> map (\<lambda>r. (r_empleado_id r, r_kpi_id r, r_valor r))
        (db_kpi_resultados
          (snd (mis_kpis_post float_of_digits (Some 7) None [1, 2] [''10'', ''20''] ['''', ''''] ex_today 4 ex_db)))
       = [(7, 1, Some 10)]"
  by code_simp

subsection \<open>The upsert of one result\<close>

lemma find_app:
  "find P (xs @ ys) = (case find P xs of None \<Rightarrow> find P ys | Some x \<Rightarrow> Some x)"
  by (induction xs) auto

lemma find_map_same:
  "(\<And>x. x \<in> set xs \<Longrightarrow> P (f x) = P x) \<Longrightarrow> find P (map f xs) = map_option f (find P xs)"
  by (induction xs) auto

lemma le_foldr_max: "x \<in> set xs \<Longrightarrow> x \<le> foldr max xs (0::int)"
  by (induction xs) auto

lemma next_id_fresh: "r \<in> set rows \<Longrightarrow> r_id r < next_id (map r_id rows)"
  using le_foldr_max [of "r_id r" "map r_id rows"] by (simp add: next_id_def)

lemma select_existing_None:
  "select_existing d e k p = None \<longleftrightarrow> (\<forall>r \<in> set (db_kpi_resultados d). \<not> same_key e k p r)"
  by (auto simp: select_existing_def find_None_iff)

lemma select_existing_Some:
  "select_existing d e k p = Some r \<Longrightarrow> r \<in> set (db_kpi_resultados d) \<and> same_key e k p r"
  by (auto simp: select_existing_def find_Some_iff)

lemma same_key_update [simp]:
  "same_key e k p (r\<lparr>r_valor := v, r_texto_resultado := t\<rparr>) = same_key e k p r"
  by (simp add: same_key_def)

text \<open>A turn in which the three calls succeed, by cases.\<close>

lemma upsert_cases:
  "upsert pf e p d (k, v, t) =
     (if storable pf d (k, v, t) then
        (case select_existing d e k p of
           Some existing \<Rightarrow>
             update_resultado d (r_id existing) (fst (stored_values pf d (k, v, t)))
               (snd (stored_values pf d (k, v, t)))
         | None \<Rightarrow>
             insert_resultado d e k p (fst (stored_values pf d (k, v, t)))
               (snd (stored_values pf d (k, v, t))))
      else d)"
  by (auto simp: upsert_def loop_turn_def storable_def stored_values_def escape_float_def
      split: prod.splits option.splits sum.splits py_float.splits)

lemma loop_turn_ok:
  "storable pf d x \<Longrightarrow> 3 \<le> budget \<Longrightarrow> loop_turn pf e p budget d x = (None, upsert pf e p d x)"
  by (cases x)
    (auto simp: upsert_def loop_turn_def storable_def
      split: prod.splits option.splits sum.splits)

lemma upsert_kpis [simp]: "db_kpis (upsert pf e p d x) = db_kpis d"
  by (cases x) (simp add: upsert_cases update_resultado_def insert_resultado_def
      split: option.splits)

lemma foldl_upsert_kpis [simp]: "db_kpis (foldl (upsert pf e p) d xs) = db_kpis d"
  by (induction xs arbitrary: d) simp_all

lemma storable_kpis: "db_kpis d' = db_kpis d \<Longrightarrow> storable pf d' x = storable pf d x"
  by (cases x) (simp add: storable_def kpi_es_criterio_def)

lemma stored_values_kpis: "db_kpis d' = db_kpis d \<Longrightarrow> stored_values pf d' x = stored_values pf d x"
  by (cases x) (simp add: stored_values_def kpi_es_criterio_def)

lemma storable_upsert [simp]: "storable pf (upsert pf' e p d x) y = storable pf d y"
  by (rule storable_kpis) simp

lemma storable_foldl_upsert [simp]: "storable pf (foldl (upsert pf' e p) d xs) y = storable pf d y"
  by (rule storable_kpis) simp

lemma stored_values_upsert [simp]: "stored_values pf (upsert pf' e p d x) y = stored_values pf d y"
  by (rule stored_values_kpis) simp

lemma stored_values_foldl_upsert [simp]:
  "stored_values pf (foldl (upsert pf' e p) d xs) y = stored_values pf d y"
  by (rule stored_values_kpis) simp

text \<open>
  The loop in closed form, for a request that succeeds: when every value can be
  written and the store answers all the statements, every triple is upserted.
\<close>

lemma submit_loop_ok:
  "(\<And>x. x \<in> set xs \<Longrightarrow> storable pf d x) \<Longrightarrow> 3 * length xs \<le> budget \<Longrightarrow>
   submit_loop pf e p xs budget d = (None, foldl (upsert pf e p) d xs)"
proof (induction xs arbitrary: budget d)
  case Nil
  show ?case by simp
next
  case (Cons x xs)
  from Cons.prems(2) have b: "3 \<le> budget" "3 * length xs \<le> budget - 3" by simp_all
  have t: "loop_turn pf e p budget d x = (None, upsert pf e p d x)"
    using Cons.prems(1) b(1) by (simp add: loop_turn_ok)
  have s: "storable pf (upsert pf e p d x) y" if "y \<in> set xs" for y
    using Cons.prems(1) [of y] that by simp
  from Cons.IH [OF s b(2)] t show ?case by simp
qed

text \<open>What a turn leaves under the triple's own key.\<close>

lemma upsert_stores:
  assumes "storable pf d (k, v, t)"
  shows "\<exists>r. select_existing (upsert pf e p d (k, v, t)) e k p = Some r
     \<and> r_valor r = fst (stored_values pf d (k, v, t))
     \<and> r_texto_resultado r = snd (stored_values pf d (k, v, t))"
proof (cases "select_existing d e k p")
  case None
  then have "find (same_key e k p) (db_kpi_resultados d) = None"
    by (simp add: select_existing_def)
  with None assms show ?thesis
    by (simp add: upsert_cases insert_resultado_def select_existing_def find_app same_key_def)
next
  case (Some r0)
  then have f: "find (same_key e k p) (db_kpi_resultados d) = Some r0"
    by (simp add: select_existing_def)
  from Some assms show ?thesis
    by (simp add: upsert_cases update_resultado_def select_existing_def find_map_same f)
qed

text \<open>A turn never removes the row of a key.\<close>

lemma upsert_keeps_row:
  assumes "select_existing d e k p \<noteq> None"
  shows "select_existing (upsert pf e' p' d x) e k p \<noteq> None"
proof -
  from assms obtain r where r: "find (same_key e k p) (db_kpi_resultados d) = Some r"
    by (auto simp: select_existing_def)
  obtain k' v t where x: "x = (k', v, t)" by (cases x)
  show ?thesis
    using assms
    by (simp add: x upsert_cases update_resultado_def insert_resultado_def select_existing_def
        find_map_same find_app r split: option.splits)
qed

text \<open>The primary key stays one: an update keeps the ids, an insert takes a fresh one.\<close>

lemma r_id_update:
  "r_id \<circ> (\<lambda>r. if r_id r = i then r\<lparr>r_valor := a, r_texto_resultado := b\<rparr> else r) = r_id"
  by (auto simp: fun_eq_iff)

lemma upsert_distinct_ids:
  assumes "distinct (map r_id (db_kpi_resultados d))"
  shows "distinct (map r_id (db_kpi_resultados (upsert pf e p d x)))"
proof -
  obtain k v t where x: "x = (k, v, t)" by (cases x)
  have fresh: "next_id (map r_id (db_kpi_resultados d)) \<notin> r_id ` set (db_kpi_resultados d)"
    using next_id_fresh [of _ "db_kpi_resultados d"] by fastforce
  show ?thesis
    using assms fresh
    by (simp add: x upsert_cases update_resultado_def insert_resultado_def r_id_update
        split: option.splits)
qed

text \<open>A turn for another KPI leaves the row of this key as it is.\<close>

lemma upsert_other_key:
  assumes "distinct (map r_id (db_kpi_resultados d))"
    and "select_existing d e k p = Some r" and "k' \<noteq> k"
  shows "select_existing (upsert pf e p d (k', v, t)) e k p = Some r"
proof (cases "select_existing d e k' p")
  case None
  with assms(2) show ?thesis
    by (simp add: upsert_cases insert_resultado_def select_existing_def find_app)
next
  case (Some r')
  from select_existing_Some [OF Some] have r': "r' \<in> set (db_kpi_resultados d)" "r_kpi_id r' = k'"
    by (simp_all add: same_key_def)
  from select_existing_Some [OF assms(2)] have r: "r \<in> set (db_kpi_resultados d)" "r_kpi_id r = k"
    by (simp_all add: same_key_def)
  from r r' assms(3) have "r \<noteq> r'" by auto
  with assms(1) r(1) r'(1) have ne: "r_id r \<noteq> r_id r'"
    by (auto simp: distinct_map dest: inj_onD)
  from assms(2) have f: "find (same_key e k p) (db_kpi_resultados d) = Some r"
    by (simp add: select_existing_def)
  from Some ne assms(2) show ?thesis
    by (simp add: upsert_cases update_resultado_def select_existing_def find_map_same f)
qed

lemma foldl_upsert_distinct_ids:
  "distinct (map r_id (db_kpi_resultados d)) \<Longrightarrow>
   distinct (map r_id (db_kpi_resultados (foldl (upsert pf e p) d xs)))"
  by (induction xs arbitrary: d) (simp_all add: upsert_distinct_ids)

lemma foldl_upsert_other_keys:
  assumes "distinct (map r_id (db_kpi_resultados d))"
    and "select_existing d e k p = Some r" and "k \<notin> fst ` set xs"
  shows "select_existing (foldl (upsert pf e p) d xs) e k p = Some r"
  using assms
proof (induction xs arbitrary: d)
  case Nil
  then show ?case by simp
next
  case (Cons x xs)
  obtain k' v t where x: "x = (k', v, t)" by (cases x)
  with Cons.prems(3) have ne: "k' \<noteq> k" by auto
  have "select_existing (upsert pf e p d x) e k p = Some r"
    unfolding x by (rule upsert_other_key [OF Cons.prems(1,2) ne])
  moreover have "distinct (map r_id (db_kpi_resultados (upsert pf e p d x)))"
    by (rule upsert_distinct_ids [OF Cons.prems(1)])
  moreover from Cons.prems(3) have "k \<notin> fst ` set xs" by auto
  ultimately show ?case using Cons.IH by simp
qed

lemma foldl_upsert_keeps_row:
  "select_existing d e k p \<noteq> None \<Longrightarrow> select_existing (foldl (upsert pf e' p') d xs) e k p \<noteq> None"
proof (induction xs arbitrary: d)
  case Nil
  then show ?case by simp
next
  case (Cons x xs)
  from upsert_keeps_row [OF Cons.prems] have "select_existing (upsert pf e' p' d x) e k p \<noteq> None" .
  from Cons.IH [OF this] show ?case by simp
qed

lemma foldl_upsert_all_rows:
  "x \<in> set xs \<Longrightarrow> (\<And>y. y \<in> set xs \<Longrightarrow> storable pf d y) \<Longrightarrow>
   select_existing (foldl (upsert pf e p) d xs) e (fst x) p \<noteq> None"
proof (induction xs arbitrary: d)
  case Nil
  then show ?case by simp
next
  case (Cons y ys)
  have s: "storable pf (upsert pf e p d y) z" if "z \<in> set ys" for z
    using Cons.prems(2) [of z] that by simp
  show ?case
  proof (cases "x = y")
    case True
    obtain k v t where y: "y = (k, v, t)" by (cases y)
    have "storable pf d (k, v, t)" using Cons.prems(2) [of y] y by simp
    from upsert_stores [OF this, of e p] have "select_existing (upsert pf e p d y) e k p \<noteq> None"
      by (auto simp: y)
    then show ?thesis using True y by (simp add: foldl_upsert_keeps_row)
  next
    case False
    with Cons.prems(1) have "x \<in> set ys" by simp
    from Cons.IH [OF this s] show ?thesis by simp
  qed
qed

subsection \<open>The POST request\<close>

lemma mis_kpis_post_ok:
  assumes "target = (case form_target of None \<Rightarrow> empleado_id | Some t \<Rightarrow> t)"
    and "\<And>x. x \<in> set (zip kpi_ids (zip vals textos)) \<Longrightarrow> storable pf d x"
    and "3 * length (zip kpi_ids (zip vals textos)) \<le> budget"
  shows "mis_kpis_post pf (Some empleado_id) form_target kpi_ids vals textos today budget d =
     (None, foldl (upsert pf target (current_period today)) d (zip kpi_ids (zip vals textos)))"
  using submit_loop_ok [of "zip kpi_ids (zip vals textos)" pf d budget target "current_period today",
      OF assms(2,3)] assms(1)
  by (simp add: mis_kpis_post_def durable_def DB_CONFIG_autocommit_def Let_def del: length_zip)

text \<open>The rows of a key, by id, through a turn.\<close>

lemma filter_key_update:
  "filter (same_key e k p)
     (map (\<lambda>r. if r_id r = i then r\<lparr>r_valor := a, r_texto_resultado := b\<rparr> else r) rows)
   = map (\<lambda>r. if r_id r = i then r\<lparr>r_valor := a, r_texto_resultado := b\<rparr> else r)
       (filter (same_key e k p) rows)"
  by (induction rows) auto

lemma upsert_key_ids_kept:
  assumes "filter (same_key e k p) (db_kpi_resultados d) \<noteq> []"
  shows "map r_id (filter (same_key e k p) (db_kpi_resultados (upsert pf e p d x)))
       = map r_id (filter (same_key e k p) (db_kpi_resultados d))"
proof -
  obtain k' v t where x: "x = (k', v, t)" by (cases x)
  from assms obtain r where r: "r \<in> set (db_kpi_resultados d)" "same_key e k p r"
    by (auto simp: filter_empty_conv)
  have ins: "select_existing d e k' p = None \<Longrightarrow> k' \<noteq> k"
    using r by (auto simp: select_existing_None)
  show ?thesis
    using ins
    by (auto simp: x upsert_cases update_resultado_def insert_resultado_def filter_key_update
        r_id_update same_key_def split: option.splits)
qed

lemma upsert_other_key_ids:
  assumes "fst x \<noteq> k"
  shows "map r_id (filter (same_key e k p) (db_kpi_resultados (upsert pf e p d x)))
       = map r_id (filter (same_key e k p) (db_kpi_resultados d))"
proof -
  obtain k' v t where x: "x = (k', v, t)" by (cases x)
  show ?thesis
    using assms
    by (auto simp: x upsert_cases update_resultado_def insert_resultado_def filter_key_update
        r_id_update same_key_def split: option.splits)
qed

lemma upsert_first_row:
  assumes "filter (same_key e k p) (db_kpi_resultados d) = []" and "storable pf d (k, v, t)"
  shows "length (filter (same_key e k p) (db_kpi_resultados (upsert pf e p d (k, v, t)))) = 1"
proof -
  from assms(1) have "select_existing d e k p = None"
    by (auto simp: select_existing_None filter_empty_conv)
  with assms show ?thesis
    by (simp add: upsert_cases insert_resultado_def same_key_def)
qed

lemma foldl_upsert_key_ids_kept:
  "filter (same_key e k p) (db_kpi_resultados d) \<noteq> [] \<Longrightarrow>
   map r_id (filter (same_key e k p) (db_kpi_resultados (foldl (upsert pf e p) d xs)))
     = map r_id (filter (same_key e k p) (db_kpi_resultados d))"
proof (induction xs arbitrary: d)
  case Nil
  show ?case by simp
next
  case (Cons x xs)
  note step = upsert_key_ids_kept [where pf = pf and x = x, OF Cons.prems]
  with Cons.prems have "filter (same_key e k p) (db_kpi_resultados (upsert pf e p d x)) \<noteq> []"
    by (metis map_is_Nil_conv)
  from Cons.IH [OF this] step show ?case by simp
qed

lemma foldl_upsert_first_row:
  "filter (same_key e k p) (db_kpi_resultados d) = [] \<Longrightarrow> k \<in> fst ` set xs \<Longrightarrow>
   (\<And>x. x \<in> set xs \<Longrightarrow> storable pf d x) \<Longrightarrow>
   length (filter (same_key e k p) (db_kpi_resultados (foldl (upsert pf e p) d xs))) = 1"
proof (induction xs arbitrary: d)
  case Nil
  then show ?case by simp
next
  case (Cons x xs)
  obtain k' v t where x: "x = (k', v, t)" by (cases x)
  have s: "storable pf (upsert pf e p d x) y" if "y \<in> set xs" for y
    using Cons.prems(3) [of y] that by simp
  show ?case
  proof (cases "k' = k")
    case True
    have "storable pf d (k, v, t)" using Cons.prems(3) [of x] x True by simp
    from upsert_first_row [OF Cons.prems(1) this]
    have one: "length (filter (same_key e k p) (db_kpi_resultados (upsert pf e p d x))) = 1"
      using x True by simp
    then have "filter (same_key e k p) (db_kpi_resultados (upsert pf e p d x)) \<noteq> []" by auto
    from foldl_upsert_key_ids_kept [where pf = pf and xs = xs, OF this] one show ?thesis
      by (metis foldl_Cons length_map)
  next
    case False
    then have "fst x \<noteq> k" by (simp add: x)
    from upsert_other_key_ids [where e = e and p = p and pf = pf and d = d, OF this] Cons.prems(1)
    have e: "filter (same_key e k p) (db_kpi_resultados (upsert pf e p d x)) = []" by simp
    from Cons.prems(2) False x have "k \<in> fst ` set xs" by auto
    from Cons.IH [OF e this s] show ?thesis by simp
  qed
qed

text \<open>A request whose keys all have rows inserts nothing.\<close>

lemma upsert_existing_ids:
  assumes "select_existing d e (fst x) p \<noteq> None"
  shows "map r_id (db_kpi_resultados (upsert pf e p d x)) = map r_id (db_kpi_resultados d)"
proof -
  obtain k v t where x: "x = (k, v, t)" by (cases x)
  show ?thesis
    using assms
    by (auto simp: x upsert_cases update_resultado_def r_id_update split: option.splits)
qed

lemma foldl_upsert_existing_ids:
  "(\<And>x. x \<in> set xs \<Longrightarrow> select_existing d e (fst x) p \<noteq> None) \<Longrightarrow>
   map r_id (db_kpi_resultados (foldl (upsert pf e p) d xs)) = map r_id (db_kpi_resultados d)"
proof (induction xs arbitrary: d)
  case Nil
  show ?case by simp
next
  case (Cons x xs)
  have "select_existing (upsert pf e p d x) e (fst y) p \<noteq> None" if "y \<in> set xs" for y
    using Cons.prems [of y] that by (simp add: upsert_keeps_row)
  from Cons.IH [OF this] upsert_existing_ids [where pf = pf, OF Cons.prems [of x]] show ?case by simp
qed

text \<open>After a batch that names each KPI once, each triple's row holds the triple's values.\<close>

lemma foldl_upsert_stores:
  assumes "distinct (map fst xs)" and "distinct (map r_id (db_kpi_resultados d))"
    and "\<And>y. y \<in> set xs \<Longrightarrow> storable pf d y" and "x \<in> set xs"
  shows "\<exists>r. select_existing (foldl (upsert pf e p) d xs) e (fst x) p = Some r
     \<and> r_valor r = fst (stored_values pf d x)
     \<and> r_texto_resultado r = snd (stored_values pf d x)"
proof -
  from assms(4) obtain pre suf where sp: "xs = pre @ x # suf"
    by (auto simp: in_set_conv_decomp)
  with assms(1) have notin: "fst x \<notin> fst ` set suf" by auto
  obtain k v t where x: "x = (k, v, t)" by (cases x)
  define d0 where "d0 = foldl (upsert pf e p) d pre"
  have "storable pf d0 (k, v, t)" using assms(3) [OF assms(4)] by (simp add: d0_def x)
  from upsert_stores [OF this, of e p] obtain r where
    r: "select_existing (upsert pf e p d0 x) e (fst x) p = Some r"
      "r_valor r = fst (stored_values pf d x)" "r_texto_resultado r = snd (stored_values pf d x)"
    by (auto simp: x d0_def)
  have dist: "distinct (map r_id (db_kpi_resultados (upsert pf e p d0 x)))"
    unfolding d0_def
    by (rule upsert_distinct_ids [OF foldl_upsert_distinct_ids [OF assms(2)]])
  have "select_existing (foldl (upsert pf e p) (upsert pf e p d0 x) suf) e (fst x) p = Some r"
    by (rule foldl_upsert_other_keys [OF dist r(1) notin])
  then have "select_existing (foldl (upsert pf e p) d xs) e (fst x) p = Some r"
    by (simp add: sp d0_def)
  with r(2,3) show ?thesis by blast
qed

text \<open>Writing the values a row already holds changes nothing.\<close>

lemma upsert_same:
  assumes "distinct (map r_id (db_kpi_resultados d))"
    and "select_existing d e k p = Some r"
    and "r_valor r = fst (stored_values pf d (k, v, t))"
    and "r_texto_resultado r = snd (stored_values pf d (k, v, t))"
  shows "upsert pf e p d (k, v, t) = d"
proof -
  let ?a = "fst (stored_values pf d (k, v, t))" and ?b = "snd (stored_values pf d (k, v, t))"
  from select_existing_Some [OF assms(2)] have rin: "r \<in> set (db_kpi_resultados d)" by simp
  have same: "(if r_id r' = r_id r then r'\<lparr>r_valor := ?a, r_texto_resultado := ?b\<rparr> else r') = r'"
    if "r' \<in> set (db_kpi_resultados d)" for r'
  proof (cases "r_id r' = r_id r")
    case True
    with assms(1) rin that have "r' = r" by (auto simp: distinct_map dest: inj_onD)
    with assms(3,4) show ?thesis by simp
  next
    case False
    then show ?thesis by simp
  qed
  have "map (\<lambda>r'. if r_id r' = r_id r then r'\<lparr>r_valor := ?a, r_texto_resultado := ?b\<rparr> else r')
      (db_kpi_resultados d) = db_kpi_resultados d"
    using same by (simp add: map_idI)
  with assms(2) show ?thesis
    by (simp add: upsert_cases update_resultado_def)
qed

lemma foldl_upsert_same:
  assumes "distinct (map r_id (db_kpi_resultados d))"
    and "\<And>x. x \<in> set xs \<Longrightarrow>
          \<exists>r. select_existing d e (fst x) p = Some r
            \<and> r_valor r = fst (stored_values pf d x) \<and> r_texto_resultado r = snd (stored_values pf d x)"
  shows "foldl (upsert pf e p) d xs = d"
  using assms(2)
proof (induction xs)
  case Nil
  show ?case by simp
next
  case (Cons x xs)
  obtain k v t where x: "x = (k, v, t)" by (cases x)
  from Cons.prems [of x] obtain r where
    "select_existing d e k p = Some r" "r_valor r = fst (stored_values pf d (k, v, t))"
    "r_texto_resultado r = snd (stored_values pf d (k, v, t))"
    by (auto simp: x)
  from upsert_same [OF assms(1) this] have "upsert pf e p d x = d" by (simp add: x)
  moreover have "foldl (upsert pf e p) d xs = d"
    by (rule Cons.IH) (use Cons.prems in auto)
  ultimately show ?case by simp
qed

lemma current_period_same_month:
  "year today2 = year today1 \<Longrightarrow> month today2 = month today1 \<Longrightarrow>
   current_period today2 = current_period today1"
  by (simp add: current_period_def)

text \<open>
  Claim C5. Two requests on days of the same month, from the same session and for
  the same target, each naming every KPI once and carrying values the store can
  hold (\<open>storable\<close>, which reads only the catalogue, and no request changes the
  catalogue), with a store that answers. If no result exists for the key (employee, KPI,
  period) before the first request and both requests carry a triple for the KPI,
  then both succeed, the key has exactly one row after the first request and
  exactly one after the second, and it is the same row (the same id): the first
  request inserted it and the second updated it in place, so that it holds the
  values of the second request's triple. A second request naming only KPIs of the
  first inserts no row at all; one that repeats triples of the first leaves the
  store as the first did.
\<close>

theorem submit_twice_updates_in_place:
  assumes "target = (case form_target of None \<Rightarrow> empleado_id | Some t \<Rightarrow> t)"
    and "year second_day = year first_day" and "month second_day = month first_day"
    and "period = current_period first_day"
    and "\<forall>r \<in> set (db_kpi_resultados d). \<not> same_key target kpi_id period r"
    and "distinct (map r_id (db_kpi_resultados d))"
    and "batch_a = zip kpi_ids_a (zip vals_a textos_a)" and "batch_b = zip kpi_ids_b (zip vals_b textos_b)"
    and "distinct kpi_ids_a" and "distinct kpi_ids_b"
    and "(kpi_id, valor_s, texto) \<in> set batch_a" and "(kpi_id, valor_t, texto_t) \<in> set batch_b"
    and "\<forall>x \<in> set batch_a. storable pf d x" and "\<forall>x \<in> set batch_b. storable pf d x"
    and "3 * length batch_a \<le> budget_a" and "3 * length batch_b \<le> budget_b"
    and "post_a = mis_kpis_post pf (Some empleado_id) form_target kpi_ids_a vals_a textos_a first_day budget_a d"
    and "post_b = mis_kpis_post pf (Some empleado_id) form_target kpi_ids_b vals_b textos_b second_day budget_b
                   (snd post_a)"
  shows "fst post_a = None \<and> fst post_b = None
     \<and> length (filter (same_key target kpi_id period) (db_kpi_resultados (snd post_a))) = 1
     \<and> length (filter (same_key target kpi_id period) (db_kpi_resultados (snd post_b))) = 1
     \<and> map r_id (filter (same_key target kpi_id period) (db_kpi_resultados (snd post_b)))
         = map r_id (filter (same_key target kpi_id period) (db_kpi_resultados (snd post_a)))
     \<and> (\<exists>r. select_existing (snd post_b) target kpi_id period = Some r
            \<and> r_valor r = fst (stored_values pf d (kpi_id, valor_t, texto_t))
            \<and> r_texto_resultado r = snd (stored_values pf d (kpi_id, valor_t, texto_t)))
     \<and> (fst ` set batch_b \<subseteq> fst ` set batch_a \<longrightarrow>
          map r_id (db_kpi_resultados (snd post_b)) = map r_id (db_kpi_resultados (snd post_a)))
     \<and> (set batch_b \<subseteq> set batch_a \<longrightarrow> snd post_b = snd post_a)"
proof -
  let ?U1 = "upsert pf target (current_period first_day)"
  let ?key = "same_key target kpi_id period"
  define d1 where "d1 = foldl ?U1 d batch_a"
  define d2 where "d2 = foldl ?U1 d1 batch_b"
  have p2: "current_period second_day = current_period first_day"
    using assms(2,3) by (rule current_period_same_month)
  have s1: "storable pf d x" if "x \<in> set batch_a" for x using assms(13) that by blast
  have s2: "storable pf d x" if "x \<in> set batch_b" for x using assms(14) that by blast
  have s2': "storable pf d1 x" if "x \<in> set batch_b" for x using s2 [OF that] by (simp add: d1_def)
  have post_a: "post_a = (None, d1)"
    unfolding assms(17) d1_def
    using mis_kpis_post_ok [OF assms(1), of kpi_ids_a vals_a textos_a pf d budget_a first_day]
      s1 assms(15) by (simp add: assms(7))
  have post_b: "post_b = (None, d2)"
    unfolding assms(18) d2_def post_a
    using mis_kpis_post_ok [OF assms(1), of kpi_ids_b vals_b textos_b pf d1 budget_b second_day]
      s2' assms(16) by (simp add: assms(8) p2)
  have none: "filter ?key (db_kpi_resultados d) = []"
    using assms(5) by (simp add: filter_empty_conv)
  have k1: "kpi_id \<in> fst ` set batch_a" using assms(11) by force
  have one1: "length (filter ?key (db_kpi_resultados d1)) = 1"
    unfolding d1_def assms(4)
    by (rule foldl_upsert_first_row [OF none [unfolded assms(4)] k1 s1])
  then have ne1: "filter (same_key target kpi_id (current_period first_day)) (db_kpi_resultados d1) \<noteq> []"
    unfolding assms(4) by auto
  have ids2: "map r_id (filter ?key (db_kpi_resultados d2)) = map r_id (filter ?key (db_kpi_resultados d1))"
    unfolding d2_def assms(4) by (rule foldl_upsert_key_ids_kept [OF ne1])
  from ids2 one1 have one2: "length (filter ?key (db_kpi_resultados d2)) = 1"
    by (metis length_map)
  have dist1: "distinct (map r_id (db_kpi_resultados d1))"
    unfolding d1_def by (rule foldl_upsert_distinct_ids [OF assms(6)])
  have dk1: "distinct (map fst batch_a)"
    using assms(9) by (simp add: assms(7) map_fst_zip_take distinct_take)
  have dk2: "distinct (map fst batch_b)"
    using assms(10) by (simp add: assms(8) map_fst_zip_take distinct_take)
  from foldl_upsert_stores [OF dk2 dist1 s2' assms(12), of target "current_period first_day"]
  have val2: "\<exists>r. select_existing d2 target kpi_id period = Some r
            \<and> r_valor r = fst (stored_values pf d (kpi_id, valor_t, texto_t))
            \<and> r_texto_resultado r = snd (stored_values pf d (kpi_id, valor_t, texto_t))"
    by (simp add: d2_def assms(4) d1_def)
  have rows1: "select_existing d1 target (fst x) (current_period first_day) \<noteq> None"
    if "x \<in> set batch_a" for x
    unfolding d1_def using that s1 by (rule foldl_upsert_all_rows)
  have keep: "map r_id (db_kpi_resultados d2) = map r_id (db_kpi_resultados d1)"
    if sub: "fst ` set batch_b \<subseteq> fst ` set batch_a"
  proof -
    have "select_existing d1 target (fst x) (current_period first_day) \<noteq> None"
      if "x \<in> set batch_b" for x
    proof -
      from that sub obtain y where "y \<in> set batch_a" "fst y = fst x" by force
      with rows1 [of y] show ?thesis by simp
    qed
    then show ?thesis unfolding d2_def by (rule foldl_upsert_existing_ids)
  qed
  have idem: "d2 = d1" if sub: "set batch_b \<subseteq> set batch_a"
  proof -
    have "\<exists>r. select_existing d1 target (fst x) (current_period first_day) = Some r
        \<and> r_valor r = fst (stored_values pf d1 x) \<and> r_texto_resultado r = snd (stored_values pf d1 x)"
      if "x \<in> set batch_b" for x
    proof -
      from that sub have "x \<in> set batch_a" by blast
      from foldl_upsert_stores [OF dk1 assms(6) s1 this, of target "current_period first_day"]
      show ?thesis by (simp add: d1_def)
    qed
    with dist1 show ?thesis unfolding d2_def by (rule foldl_upsert_same)
  qed
  show ?thesis
    using one1 one2 ids2 val2 keep idem by (simp add: post_a post_b)
qed

theorem submit_twice_updates_in_place_witness:
  "db_kpi_resultados ex_db = []
   \<and> year ex_later = year ex_today \<and> month ex_later = month ex_today
   \<and> day ex_later \<noteq> day ex_today
   \<and> fst (mis_kpis_post float_of_digits (Some 7) None [1, 2] [''10'', ''20''] ['''', ''''] ex_today 6 ex_db)
       = None
   \<and> map (\<lambda>r. (r_id r, r_kpi_id r, periodo r, r_valor r))
        (db_kpi_resultados
           (snd (mis_kpis_post float_of_digits (Some 7) None [1, 2] [''10'', ''20''] ['''', '''']
                   ex_today 6 ex_db)))
       = [(1, 1, current_period ex_today, Some 10), (2, 2, current_period ex_today, Some 20)]
   \<and> fst (mis_kpis_post float_of_digits (Some 7) None [1, 2] [''10'', ''20''] ['''', ''''] ex_later 6
           (snd (mis_kpis_post float_of_digits (Some 7) None [1, 2] [''10'', ''20''] ['''', '''']
                   ex_today 6 ex_db)))
       = None
   \<and> snd (mis_kpis_post float_of_digits (Some 7) None [1, 2] [''10'', ''20''] ['''', ''''] ex_later 6
           (snd (mis_kpis_post float_of_digits (Some 7) None [1, 2] [''10'', ''20''] ['''', '''']
                   ex_today 6 ex_db)))
       = snd (mis_kpis_post float_of_digits (Some 7) None [1, 2] [''10'', ''20''] ['''', '''']
                ex_today 6 ex_db)
   \<and> map (\<lambda>r. (r_id r, r_kpi_id r, periodo r, r_valor r))
        (db_kpi_resultados
           (snd (mis_kpis_post float_of_digits (Some 7) None [1] [''15''] [''''] ex_later 3
              (snd (mis_kpis_post float_of_digits (Some 7) None [1, 2] [''10'', ''20''] ['''', '''']
                      ex_today 6 ex_db)))))
       = [(1, 1, current_period ex_today, Some 15), (2, 2, current_period ex_today, Some 20)]"
proof -
  let ?post1 = "mis_kpis_post float_of_digits (Some 7) None [1, 2] [''10'', ''20''] ['''', ''''] ex_today 6 ex_db"
  let ?post2 = "mis_kpis_post float_of_digits (Some 7) None [1, 2] [''10'', ''20''] ['''', ''''] ex_later 6
                  (snd ?post1)"
  let ?batch = "zip [1::int, 2] (zip [''10'', ''20''] ['''', ''''])"
  have h1: "(7::int) = (case None of None \<Rightarrow> 7 | Some t \<Rightarrow> t)" by simp
  have h2: "year ex_later = year ex_today" "month ex_later = month ex_today"
    by (simp_all add: ex_later_def ex_today_def)
  have h5: "\<forall>r \<in> set (db_kpi_resultados ex_db). \<not> same_key 7 1 (current_period ex_today) r"
    by (simp add: ex_db_def)
  have h6: "distinct (map r_id (db_kpi_resultados ex_db))" by (simp add: ex_db_def)
  have h9: "distinct [1::int, 2]" by simp
  have h11: "(1, ''10'', '''') \<in> set ?batch" by simp
  have h13: "\<forall>x \<in> set ?batch. storable float_of_digits ex_db x" by code_simp
  have h15: "3 * length ?batch \<le> (6::nat)" by simp
  note inst = submit_twice_updates_in_place
    [where pf = float_of_digits and d = ex_db and target = 7 and empleado_id = 7
       and form_target = None and kpi_id = 1 and valor_s = "''10''" and texto = "''''"
       and valor_t = "''10''" and texto_t = "''''"
       and first_day = ex_today and second_day = ex_later and budget_a = 6 and budget_b = 6,
     OF h1 h2 refl h5 h6 refl refl h9 h9 h11 h11 h13 h13 h15 h15 refl refl]
  from inst have r1: "fst ?post1 = None" and r2: "fst ?post2 = None" by blast+
  from inst have r3: "snd ?post2 = snd ?post1" by blast
  have e0: "db_kpi_resultados ex_db = [] \<and> day ex_later \<noteq> day ex_today"
    by (simp add: ex_db_def ex_later_def ex_today_def)
  have e1: "map (\<lambda>r. (r_id r, r_kpi_id r, periodo r, r_valor r)) (db_kpi_resultados (snd ?post1))
       = [(1, 1, current_period ex_today, Some 10), (2, 2, current_period ex_today, Some 20)]"
    by code_simp
  have e2: "map (\<lambda>r. (r_id r, r_kpi_id r, periodo r, r_valor r))
        (db_kpi_resultados
           (snd (mis_kpis_post float_of_digits (Some 7) None [1] [''15''] [''''] ex_later 3 (snd ?post1))))
       = [(1, 1, current_period ex_today, Some 15), (2, 2, current_period ex_today, Some 20)]"
    by code_simp
  from h2 e0 r1 r2 r3 e1 e2 show ?thesis by simp
qed

text \<open>
  A value \<^verbatim>\<open>float\<close> rejects, in a request that succeeds: the row of its key
  holds a null value and a null text, and every triple of the batch has a row.
\<close>

lemma value_error_stored_as_null:
  assumes "3 * length (zip kpi_ids (zip vals textos)) \<le> budget"
    and "distinct kpi_ids"
    and "distinct (map r_id (db_kpi_resultados d))"
    and "\<forall>x \<in> set (zip kpi_ids (zip vals textos)). storable pf d x"
    and "(kpi_id, valor_s, texto) \<in> set (zip kpi_ids (zip vals textos))"
    and "\<not> kpi_es_criterio d kpi_id" and "pf valor_s = None"
    and "target = (case form_target of None \<Rightarrow> empleado_id | Some t \<Rightarrow> t)"
    and "post = mis_kpis_post pf (Some empleado_id) form_target kpi_ids vals textos today budget d"
  shows "fst post = None
     \<and> (\<exists>r. select_existing (snd post) target kpi_id (current_period today) = Some r
            \<and> r_valor r = None \<and> r_texto_resultado r = None)
     \<and> (\<forall>x \<in> set (zip kpi_ids (zip vals textos)).
            select_existing (snd post) target (fst x) (current_period today) \<noteq> None)"
proof -
  let ?p = "current_period today"
  let ?batch = "zip kpi_ids (zip vals textos)"
  let ?U = "upsert pf target ?p"
  have s: "storable pf d x" if "x \<in> set ?batch" for x using assms(4) that by blast
  have post: "post = (None, foldl ?U d ?batch)"
    unfolding assms(9) using mis_kpis_post_ok [OF assms(8), of kpi_ids vals textos pf d budget today]
      s assms(1) by simp
  have dk: "distinct (map fst ?batch)"
    using assms(2) by (simp add: map_fst_zip_take distinct_take)
  have sv: "stored_values pf d (kpi_id, valor_s, texto) = (None, None)"
    using assms(6,7) by (simp add: stored_values_def prepare_values_def)
  from foldl_upsert_stores [OF dk assms(3) s assms(5), of target ?p] sv
  have fin: "\<exists>r. select_existing (foldl ?U d ?batch) target kpi_id ?p = Some r
      \<and> r_valor r = None \<and> r_texto_resultado r = None"
    by simp
  have all: "select_existing (foldl ?U d ?batch) target (fst x) ?p \<noteq> None"
    if "x \<in> set ?batch" for x
    using that s by (rule foldl_upsert_all_rows)
  show ?thesis
    using fin all by (simp add: post del: length_zip)
qed

text \<open>
  Claim C6 does not hold of the code. \<^verbatim>\<open>float("nan")\<close> returns a NaN and
  raises no \<^verbatim>\<open>ValueError\<close>, so the value is not replaced by null; the write of
  the triple raises, the request fails, and the next triple, whose value is
  well formed, is never stored.
\<close>

theorem non_finite_value_aborts_batch:
  "float_of_text ''nan'' = Some Nan \<and> \<not> kpi_es_criterio ex_db 1
   \<and> fst (mis_kpis_post float_of_text (Some 7) None [1, 2] [''nan'', ''20''] ['''', ''''] ex_today 6 ex_db)
       = Some ProgrammingError
   \<and> db_kpi_resultados
       (snd (mis_kpis_post float_of_text (Some 7) None [1, 2] [''nan'', ''20''] ['''', ''''] ex_today 6 ex_db))
       = []"
  by code_simp

subsection \<open>The GET request\<close>

lemma select_subordinate_puestos_empty:
  "select_subordinate_puestos d puesto_id = [] \<longleftrightarrow>
     (\<forall>p \<in> set (db_puestos d). jefe_puesto_id p \<noteq> Some puesto_id)"
  by (auto simp: select_subordinate_puestos_def filter_empty_conv)

text \<open>
  Claim C9. The employees-by-position lookup is never issued with an empty list of
  position ids. A position that is the boss of no position has no subordinate
  positions; for a viewer in such a position the page has an empty subordinate
  list and the request issues no employees-by-position lookup at all.
\<close>

theorem no_lookup_for_an_empty_position_list:
  "Select_empleados_in [] \<notin> set (snd (mis_kpis_get order_by session_empleado_id today d))
   \<and> ((\<forall>p \<in> set (db_puestos d). jefe_puesto_id p \<noteq> Some puesto_id)
        \<longrightarrow> select_subordinate_puestos d puesto_id = [])
   \<and> (\<forall>empleado_id emp.
         session_empleado_id = Some empleado_id \<and> select_empleado d empleado_id = Some emp
         \<and> ev_puesto_id emp = Some puesto_id
         \<and> (\<forall>p \<in> set (db_puestos d). jefe_puesto_id p \<noteq> Some puesto_id)
         \<longrightarrow> page_subordinates (fst (mis_kpis_get order_by session_empleado_id today d)) = []
             \<and> (\<forall>ids. Select_empleados_in ids
                   \<notin> set (snd (mis_kpis_get order_by session_empleado_id today d)))
             \<and> (puesto_id \<noteq> 0 \<longrightarrow>
                  fst (mis_kpis_get order_by session_empleado_id today d) =
                    Mis_kpis (color_rows (select_kpis order_by d empleado_id (current_period today)
                                            (Some puesto_id)))
                      emp [] (current_period today)))"
proof (intro conjI allI impI)
  show "Select_empleados_in [] \<notin> set (snd (mis_kpis_get order_by session_empleado_id today d))"
    by (auto simp: mis_kpis_get_def Let_def split: option.splits)
next
  assume "\<forall>p \<in> set (db_puestos d). jefe_puesto_id p \<noteq> Some puesto_id"
  then show "select_subordinate_puestos d puesto_id = []"
    by (simp add: select_subordinate_puestos_empty)
next
  fix empleado_id emp
  assume a: "session_empleado_id = Some empleado_id \<and> select_empleado d empleado_id = Some emp
         \<and> ev_puesto_id emp = Some puesto_id
         \<and> (\<forall>p \<in> set (db_puestos d). jefe_puesto_id p \<noteq> Some puesto_id)"
  then have e: "select_subordinate_puestos d puesto_id = []"
    by (simp add: select_subordinate_puestos_empty)
  from a e show "page_subordinates (fst (mis_kpis_get order_by session_empleado_id today d)) = []"
    by (simp add: mis_kpis_get_def Let_def page_subordinates_def)
  show "Select_empleados_in ids \<notin> set (snd (mis_kpis_get order_by session_empleado_id today d))"
    for ids
    using a e by (simp add: mis_kpis_get_def Let_def)
  assume "puesto_id \<noteq> 0"
  with a e show "fst (mis_kpis_get order_by session_empleado_id today d) =
               Mis_kpis (color_rows (select_kpis order_by d empleado_id (current_period today)
                                       (Some puesto_id)))
                 emp [] (current_period today)"
    by (simp add: mis_kpis_get_def Let_def truthy_def)
qed

theorem no_lookup_for_an_empty_position_list_witness:
  "ev_puesto_id (the (select_empleado ex_org_db 10)) = Some 2
   \<and> select_subordinate_puestos ex_org_db 2 = []
   \<and> page_subordinates (fst (mis_kpis_get (\<lambda>rows. rows) (Some 10) ex_today ex_org_db)) = []
   \<and> snd (mis_kpis_get (\<lambda>rows. rows) (Some 10) ex_today ex_org_db) =
       [Select_empleado 10, Select_kpis 10 (current_period ex_today) (Some 2),
        Select_subordinate_puestos 2]
   \<and> snd (mis_kpis_get (\<lambda>rows. rows) (Some 11) ex_today ex_org_db) =
       [Select_empleado 11, Select_kpis 11 (current_period ex_today) (Some 1),
        Select_subordinate_puestos 1, Select_empleados_in [2],
        Select_kpis 10 (current_period ex_today) (Some 2)]"
proof -
  have emp: "select_empleado ex_org_db 10 =
      Some \<lparr> ev_id = 10, ev_nombre = ''Ana'', ev_puesto_id = Some 2, ev_puesto_nombre = Some ''Gerente'' \<rparr>"
    by code_simp
  have nokids: "\<forall>p \<in> set (db_puestos ex_org_db). jefe_puesto_id p \<noteq> Some 2"
    by (simp add: ex_org_db_def mk_puesto_def)
  note inst = no_lookup_for_an_empty_position_list
    [where order_by = "\<lambda>rows. rows" and session_empleado_id = "Some 10" and today = ex_today
       and d = ex_org_db and puesto_id = 2]
  have s: "select_subordinate_puestos ex_org_db 2 = []"
    using inst [THEN conjunct2, THEN conjunct1] nokids by (rule mp)
  have p: "page_subordinates (fst (mis_kpis_get (\<lambda>rows. rows) (Some 10) ex_today ex_org_db)) = []"
    using inst [THEN conjunct2, THEN conjunct2, rule_format, THEN conjunct1] emp nokids by simp
  have l: "snd (mis_kpis_get (\<lambda>rows. rows) (Some 10) ex_today ex_org_db) =
       [Select_empleado 10, Select_kpis 10 (current_period ex_today) (Some 2),
        Select_subordinate_puestos 2]
   \<and> snd (mis_kpis_get (\<lambda>rows. rows) (Some 11) ex_today ex_org_db) =
       [Select_empleado 11, Select_kpis 11 (current_period ex_today) (Some 1),
        Select_subordinate_puestos 1, Select_empleados_in [2],
        Select_kpis 10 (current_period ex_today) (Some 2)]"
    by code_simp
  from emp s p l show ?thesis by simp
qed

subsection \<open>The import\<close>














end
